theory Spec2Isabelle
  imports Complex_Main "HOL-Library.Word"
begin

section \<open>Holographic wireframe generator (iaret/tools/generate_holo.py)\<close>

text \<open>
  The development embeds \<^verbatim>\<open>create_wireframe\<close> of \<^verbatim>\<open>generate_holo.py\<close>. The function
  is a straight-line pipeline over whole arrays; every array operation of the source is a
  definition below, in the order of the source. The source calls two libraries, Pillow
  and NumPy. Their operations are modelled here as the libraries compute them:
  \<^item> \<^verbatim>\<open>Image.convert("L")\<close>: Pillow's \<^verbatim>\<open>rgb2l\<close> (Convert.c),
    \<open>(19595 R + 38470 G + 7471 B + 0x8000) >> 16\<close>; the alpha sample is not read;
  \<^item> \<^verbatim>\<open>Image.filter(Kernel)\<close>: Pillow's \<^verbatim>\<open>ImagingFilter\<close> (Filter.c): an image smaller
    than the kernel is copied, the outermost rows and columns (one for a 3x3 kernel, two
    for a 5x5 kernel) are copied from the input, every other sample is
    \<open>clip8 (offset + 0.5 + sum)\<close>; \<^verbatim>\<open>FIND_EDGES\<close> and \<^verbatim>\<open>CONTOUR\<close> are the 3x3
    kernel \<open>-1 ... 8 ... -1\<close> with scale 1 and offsets 0 and 255 (ImageFilter.py);
  \<^item> \<^verbatim>\<open>GaussianBlur(radius=2)\<close>: Pillow's \<^verbatim>\<open>ImagingGaussianBlur\<close> (BoxBlur.c): three
    passes of an extended box blur along the rows, then three along the columns, on
    each of the four channels, with the border sample repeated outside the line;
  \<^item> \<^verbatim>\<open>Image.alpha_composite\<close>: Pillow's \<^verbatim>\<open>ImagingAlphaComposite\<close> (AlphaComposite.c),
    integer "over" compositing of straight-alpha pixels;
  \<^item> NumPy arithmetic on \<^verbatim>\<open>float32\<close> and \<^verbatim>\<open>float64\<close> arrays: every product and sum
    is the exact rational result rounded to the nearest value of the format, ties to
    even. All values of the pipeline are zero or lie between \<open>0.12\<close> and \<open>637.5\<close>, so
    overflow and NaN do not occur and are not modelled.
\<close>

subsection \<open>Images\<close>

type_synonym u8 = "8 word"

text \<open>A PIL image or a two-dimensional NumPy array: its size and its rows, top to bottom.\<close>

record 'a img =
  width :: nat
  height :: nat
  rows :: "'a list list"

definition pix :: "'a img \<Rightarrow> nat \<Rightarrow> nat \<Rightarrow> 'a" where
  "pix im x y = rows im ! y ! x"

definition mk_img :: "nat \<Rightarrow> nat \<Rightarrow> (nat \<Rightarrow> nat \<Rightarrow> 'a) \<Rightarrow> 'a img" where
  "mk_img w h f = \<lparr>width = w, height = h, rows = map (\<lambda>y. map (\<lambda>x. f x y) [0..<w]) [0..<h]\<rparr>"

text \<open>A decoded image has at least one pixel, and every row has \<open>width\<close> samples.\<close>

definition wf_img :: "'a img \<Rightarrow> bool" where
  "wf_img im \<longleftrightarrow> 0 < width im \<and> 0 < height im \<and> length (rows im) = height im
     \<and> list_all (\<lambda>r. length r = width im) (rows im)"

record rgba =
  red :: u8
  green :: u8
  blue :: u8
  alpha :: u8

subsection \<open>Grayscale reducer: \<^verbatim>\<open>img.convert("L")\<close>\<close>

definition l24 :: "u8 \<times> u8 \<times> u8 \<Rightarrow> u8" where
  "l24 c = (case c of (r, g, b) \<Rightarrow>
     of_int ((uint r * 19595 + uint g * 38470 + uint b * 7471 + 32768) div 65536))"

definition rgb_of :: "rgba \<Rightarrow> u8 \<times> u8 \<times> u8" where
  "rgb_of p = (red p, green p, blue p)"

definition rgb2l :: "rgba \<Rightarrow> u8" where
  "rgb2l p = l24 (rgb_of p)"

definition convert_L :: "rgba img \<Rightarrow> u8 img" where
  "convert_L im = \<lparr>width = width im, height = height im, rows = map (map rgb2l) (rows im)\<rparr>"

subsection \<open>Convolution filters: \<^verbatim>\<open>gray.filter(ImageFilter.Kernel(...))\<close>\<close>

definition clip8 :: "rat \<Rightarrow> u8" where
  "clip8 v = (if v \<le> 0 then 0 else if 255 \<le> v then 255 else of_int \<lfloor>v\<rfloor>)"

text \<open>
  The weighted sum at an inner sample. Kernel row \<open>j\<close> meets image row \<open>y + r - j\<close>
  (Pillow starts with the row below). The products and sums are small integers, exact
  in the C code's \<^verbatim>\<open>float\<close>.
\<close>

definition kernel_sum :: "nat \<Rightarrow> rat list \<Rightarrow> u8 img \<Rightarrow> nat \<Rightarrow> nat \<Rightarrow> rat" where
  "kernel_sum r k im x y =
     (\<Sum>j\<leftarrow>[0..<2 * r + 1]. \<Sum>i\<leftarrow>[0..<2 * r + 1].
        k ! (j * (2 * r + 1) + i) * of_nat (unat (pix im (x + i - r) (y + r - j))))"

definition filter_kernel :: "nat \<Rightarrow> rat list \<Rightarrow> rat \<Rightarrow> rat \<Rightarrow> u8 img \<Rightarrow> u8 img" where
  "filter_kernel r ker scl off im =
     (let w = width im; h = height im; k = map (\<lambda>v. v / scl) ker in
      if w < 2 * r + 1 \<or> h < 2 * r + 1 then im
      else mk_img w h (\<lambda>x y.
        if x < r \<or> y < r \<or> w - r \<le> x \<or> h - r \<le> y then pix im x y
        else clip8 (off + 1 / 2 + kernel_sum r k im x y)))"

definition kernel3 :: "rat list" where
  "kernel3 = [-1, -1, -1, -1, 8, -1, -1, -1, -1]"

definition kernel5 :: "rat list" where
  "kernel5 = [-1, -1, -1, -1, -1,
              -1, -1, -1, -1, -1,
              -1, -1, 24, -1, -1,
              -1, -1, -1, -1, -1,
              -1, -1, -1, -1, -1]"

definition edges_fine :: "u8 img \<Rightarrow> u8 img" where
  "edges_fine gray = filter_kernel 1 kernel3 1 0 gray"

definition FIND_EDGES :: "u8 img \<Rightarrow> u8 img" where
  "FIND_EDGES gray = filter_kernel 1 kernel3 1 0 gray"

definition edges_coarse :: "u8 img \<Rightarrow> u8 img" where
  "edges_coarse gray = filter_kernel 2 kernel5 1 0 gray"

definition CONTOUR :: "u8 img \<Rightarrow> u8 img" where
  "CONTOUR gray = filter_kernel 1 kernel3 1 255 gray"

subsection \<open>NumPy floating-point arithmetic\<close>

definition pow2 :: "int \<Rightarrow> rat" where
  "pow2 e = (if 0 \<le> e then 2 ^ nat e else 1 / 2 ^ nat (- e))"

definition round_half_even :: "rat \<Rightarrow> int" where
  "round_half_even m =
     (let n = \<lfloor>m\<rfloor>; f = m - of_int n in
      if f < 1 / 2 then n else if 1 / 2 < f then n + 1 else if even n then n else n + 1)"

text \<open>
  \<open>exponent_of emin x\<close>: the largest \<open>e\<close> with \<open>2 ^ e \<le> x\<close>, searched by bisection in
  \<open>emin ..< emin + 2048\<close>, and \<open>emin\<close> when \<open>x\<close> is below \<open>2 ^ emin\<close> (the subnormal range).
\<close>

definition exponent_of :: "int \<Rightarrow> rat \<Rightarrow> int" where
  "exponent_of emin x =
     fold (\<lambda>s lo. if pow2 (lo + s) \<le> x then lo + s else lo)
       [1024, 512, 256, 128, 64, 32, 16, 8, 4, 2, 1] emin"

text \<open>
  \<open>fl p emin x\<close>: the value of the binary format with \<open>p\<close> significant bits and least
  exponent \<open>emin\<close> that is nearest to \<open>x\<close>, ties to even.
\<close>

definition fl :: "nat \<Rightarrow> int \<Rightarrow> rat \<Rightarrow> rat" where
  "fl p emin x =
     (let e = exponent_of emin \<bar>x\<bar>; q = pow2 (e - int p + 1)
      in sgn x * of_int (round_half_even (\<bar>x\<bar> / q)) * q)"

definition f32 :: "rat \<Rightarrow> rat" where
  "f32 x = fl 24 (- 126) x"

definition f64 :: "rat \<Rightarrow> rat" where
  "f64 x = fl 53 (- 1022) x"

text \<open>
  \<^verbatim>\<open>a * c\<close> for a \<^verbatim>\<open>float32\<close> array and a Python constant: the constant is converted to
  \<^verbatim>\<open>float32\<close>, the product is rounded. For a \<^verbatim>\<open>uint8\<close> array the result is \<^verbatim>\<open>float64\<close>.
\<close>

definition mul32 :: "rat \<Rightarrow> rat \<Rightarrow> rat" where
  "mul32 a c = f32 (a * f32 c)"

definition add32 :: "rat \<Rightarrow> rat \<Rightarrow> rat" where
  "add32 a b = f32 (a + b)"

definition mul64 :: "rat \<Rightarrow> rat \<Rightarrow> rat" where
  "mul64 a c = f64 (a * f64 c)"

definition as_float :: "u8 \<Rightarrow> rat" where
  "as_float v = of_nat (unat v)"

definition clip :: "rat \<Rightarrow> rat \<Rightarrow> rat \<Rightarrow> rat" where
  "clip v lo hi = min (max v lo) hi"

text \<open>\<^verbatim>\<open>.astype(np.uint8)\<close> truncates towards zero; the operand is always within \<open>0..255\<close>.\<close>

definition astype_uint8 :: "rat \<Rightarrow> u8" where
  "astype_uint8 v = of_int (if 0 \<le> v then \<lfloor>v\<rfloor> else \<lceil>v\<rceil>)"

subsection \<open>Layer compositor (source lines 57-99)\<close>

definition HOLO_CYAN :: "u8 \<times> u8 \<times> u8" where
  "HOLO_CYAN = (0, 255, 220)"

definition HOLO_VIOLET :: "u8 \<times> u8 \<times> u8" where
  "HOLO_VIOLET = (147, 51, 234)"

text \<open>
  Lines 62-68 at one position: the weighted sum of the three edge maps in \<^verbatim>\<open>float32\<close>,
  clipped (line 62); boosted by 2.5, clipped and truncated to \<^verbatim>\<open>uint8\<close> (line 65);
  zeroed below 30 (line 68).
\<close>

definition weighted_sum :: "u8 \<Rightarrow> u8 \<Rightarrow> u8 \<Rightarrow> rat" where
  "weighted_sum f m c =
     clip (add32 (add32 (mul32 (as_float f) (1 / 2)) (mul32 (as_float m) (3 / 10)))
                 (mul32 (as_float c) (2 / 10))) 0 255"

definition boost :: "rat \<Rightarrow> u8" where
  "boost v = astype_uint8 (clip (mul32 v (5 / 2)) 0 255)"

definition noise_floor :: "u8 \<Rightarrow> u8" where
  "noise_floor c = (if c < 30 then 0 else c)"

definition combined_px :: "u8 \<Rightarrow> u8 \<Rightarrow> u8 \<Rightarrow> u8" where
  "combined_px f m c = noise_floor (boost (weighted_sum f m c))"

definition combined_edges :: "u8 img \<Rightarrow> u8 img" where
  "combined_edges gray =
     (let arr_fine = edges_fine gray; arr_medium = FIND_EDGES gray; arr_coarse = edges_coarse gray
      in mk_img (width gray) (height gray)
           (\<lambda>x y. combined_px (pix arr_fine x y) (pix arr_medium x y) (pix arr_coarse x y)))"

definition edge_mask :: "u8 img \<Rightarrow> bool img" where
  "edge_mask combined =
     mk_img (width combined) (height combined) (\<lambda>x y. 0 < pix combined x y)"

definition arr_offset_px :: "u8 \<Rightarrow> u8" where
  "arr_offset_px v = astype_uint8 (clip (mul32 (as_float v) (3 / 2)) 0 255)"

definition arr_offset :: "u8 img \<Rightarrow> u8 img" where
  "arr_offset gray =
     (let edges_offset = CONTOUR gray
      in mk_img (width gray) (height gray) (\<lambda>x y. arr_offset_px (pix edges_offset x y)))"

definition offset_mask :: "u8 img \<Rightarrow> bool img \<Rightarrow> bool img" where
  "offset_mask arr_off e_mask =
     mk_img (width arr_off) (height arr_off)
       (\<lambda>x y. 40 < pix arr_off x y \<and> \<not> pix e_mask x y)"

definition faint_mask :: "u8 img \<Rightarrow> bool img \<Rightarrow> bool img \<Rightarrow> bool img" where
  "faint_mask gray e_mask o_mask =
     mk_img (width gray) (height gray)
       (\<lambda>x y. 30 < as_float (pix gray x y) \<and> \<not> pix e_mask x y \<and> \<not> pix o_mask x y)"

text \<open>\<^verbatim>\<open>np.zeros((h, w, 4))\<close> and the masked assignments \<^verbatim>\<open>result[mask, c] = ...\<close>.\<close>

definition zeros :: "nat \<Rightarrow> nat \<Rightarrow> rgba img" where
  "zeros w h = mk_img w h (\<lambda>x y. \<lparr>red = 0, green = 0, blue = 0, alpha = 0\<rparr>)"

definition assign_masked :: "bool img \<Rightarrow> (nat \<Rightarrow> nat \<Rightarrow> rgba) \<Rightarrow> rgba img \<Rightarrow> rgba img" where
  "assign_masked msk v result =
     mk_img (width result) (height result)
       (\<lambda>x y. if pix msk x y then v x y else pix result x y)"

definition edge_px :: "u8 \<Rightarrow> rgba" where
  "edge_px c = (case HOLO_CYAN of (r, g, b) \<Rightarrow>
     \<lparr>red = r, green = g, blue = b,
      alpha = astype_uint8 (clip (mul64 (as_float c) (9 / 10)) 0 255)\<rparr>)"

definition offset_px :: "u8 \<Rightarrow> rgba" where
  "offset_px v = (case HOLO_VIOLET of (r, g, b) \<Rightarrow>
     \<lparr>red = r, green = g, blue = b,
      alpha = astype_uint8 (clip (mul64 (as_float v) (4 / 10)) 0 180)\<rparr>)"

definition faint_px :: "u8 \<Rightarrow> rgba" where
  "faint_px l =
     \<lparr>red = 0,
      green = astype_uint8 (clip (mul32 (as_float l) (25 / 100)) 0 80),
      blue = astype_uint8 (clip (mul32 (as_float l) (22 / 100)) 0 70),
      alpha = astype_uint8 (clip (mul32 (as_float l) (12 / 100)) 0 40)\<rparr>"

text \<open>The sharp image \<^verbatim>\<open>out_img\<close> of line 101, before the glow.\<close>

definition out_img :: "rgba img \<Rightarrow> rgba img" where
  "out_img im =
     (let gray = convert_L im;
          combined = combined_edges gray;
          (w, h) = (width im, height im);
          result = zeros w h;
          e_mask = edge_mask combined;
          result = assign_masked e_mask (\<lambda>x y. edge_px (pix combined x y)) result;
          arr_off = arr_offset gray;
          o_mask = offset_mask arr_off e_mask;
          result = assign_masked o_mask (\<lambda>x y. offset_px (pix arr_off x y)) result;
          f_mask = faint_mask gray e_mask o_mask;
          result = assign_masked f_mask (\<lambda>x y. faint_px (pix gray x y)) result
      in result)"

text \<open>The three masks of a run, as functions of the grayscale image.\<close>

definition edge_mask_of :: "u8 img \<Rightarrow> bool img" where
  "edge_mask_of gray = edge_mask (combined_edges gray)"

definition offset_mask_of :: "u8 img \<Rightarrow> bool img" where
  "offset_mask_of gray = offset_mask (arr_offset gray) (edge_mask_of gray)"

definition faint_mask_of :: "u8 img \<Rightarrow> bool img" where
  "faint_mask_of gray = faint_mask gray (edge_mask_of gray) (offset_mask_of gray)"

subsection \<open>Glow compositor (source lines 103-109)\<close>

text \<open>
  One line of the extended box blur (\<^verbatim>\<open>ImagingLineBoxBlur32\<close>). The C code keeps a running
  sum of the \<open>2 radius + 1\<close> samples around \<open>x\<close>, reading the first or last sample of
  the line where the window leaves it; the sum is written here as the sum over the
  window. The two samples just outside the window enter with weight \<open>fw\<close>. The C
  code computes in \<^verbatim>\<open>UINT32\<close>; all intermediate values are below \<open>2 ^ 32\<close>, since
  \<open>(2 radius + 1) ww + 2 fw \<le> 2 ^ 24\<close>, so the model computes in \<open>int\<close>.
\<close>

definition clamp_index :: "int \<Rightarrow> nat \<Rightarrow> nat" where
  "clamp_index i lastx = (if i < 0 then 0 else if int lastx < i then lastx else nat i)"

definition blur_sample :: "nat \<Rightarrow> int \<Rightarrow> int \<Rightarrow> int list \<Rightarrow> nat \<Rightarrow> int" where
  "blur_sample radius ww fw line x =
     (let lastx = length line - 1;
          acc = (\<Sum>d\<leftarrow>[0..<2 * radius + 1]. line ! clamp_index (int x + int d - int radius) lastx);
          far = line ! clamp_index (int x - int radius - 1) lastx
              + line ! clamp_index (int x + int radius + 1) lastx;
          bulk = acc * ww + far * fw
      in (bulk + 2 ^ 23) div 2 ^ 24)"

definition line_box_blur :: "nat \<Rightarrow> int \<Rightarrow> int \<Rightarrow> rgba list \<Rightarrow> rgba list" where
  "line_box_blur radius ww fw line =
     (let rs = map (\<lambda>p. uint (red p)) line; gs = map (\<lambda>p. uint (green p)) line;
          bs = map (\<lambda>p. uint (blue p)) line; as = map (\<lambda>p. uint (alpha p)) line
      in map (\<lambda>x. \<lparr>red = of_int (blur_sample radius ww fw rs x),
                    green = of_int (blur_sample radius ww fw gs x),
                    blue = of_int (blur_sample radius ww fw bs x),
                    alpha = of_int (blur_sample radius ww fw as x)\<rparr>)
           [0..<length line])"

definition horizontal_box_blur :: "rat \<Rightarrow> rgba img \<Rightarrow> rgba img" where
  "horizontal_box_blur floatRadius im =
     (let radius = nat \<lfloor>floatRadius\<rfloor>;
          ww = \<lfloor>f32 (2 ^ 24 / f32 (floatRadius * 2 + 1))\<rfloor>;
          fw = (2 ^ 24 - (int radius * 2 + 1) * ww) div 2
      in \<lparr>width = width im, height = height im,
          rows = map (line_box_blur radius ww fw) (rows im)\<rparr>)"

definition transpose_img :: "'a img \<Rightarrow> 'a img" where
  "transpose_img im = mk_img (height im) (width im) (\<lambda>x y. pix im y x)"

definition box_blur :: "rat \<Rightarrow> nat \<Rightarrow> rgba img \<Rightarrow> rgba img" where
  "box_blur floatRadius n im =
     transpose_img ((horizontal_box_blur floatRadius ^^ n)
       (transpose_img ((horizontal_box_blur floatRadius ^^ n) im)))"

text \<open>
  \<^verbatim>\<open>_gaussian_blur_radius(2, 3)\<close>: with \<open>sigma2 = 2 * 2 / 3\<close> the box length is
  \<open>L = sqrt (12 sigma2 + 1) = sqrt 17\<close>, its integer radius \<open>l = floor ((L - 1) / 2) = 1\<close>,
  and the fractional part follows from \<open>l\<close> and \<open>sigma2\<close>.
\<close>

definition gaussian_blur_radius :: rat where
  "gaussian_blur_radius =
     (let sigma2 = 2 * 2 / 3; l = 1;
          a = (2 * l + 1) * (l * (l + 1) - 3 * sigma2) / (6 * (sigma2 - (l + 1) * (l + 1)))
      in l + a)"

definition GaussianBlur2 :: "rgba img \<Rightarrow> rgba img" where
  "GaussianBlur2 im = box_blur gaussian_blur_radius 3 im"

text \<open>Line 106: the alpha sample of the blurred image is halved and capped at 128.\<close>

definition glow_px :: "rgba \<Rightarrow> rgba" where
  "glow_px p = p\<lparr>alpha := astype_uint8 (clip (mul32 (as_float (alpha p)) (1 / 2)) 0 128)\<rparr>"

definition glow_img :: "rgba img \<Rightarrow> rgba img" where
  "glow_img out = (let glow = GaussianBlur2 out
     in mk_img (width glow) (height glow) (\<lambda>x y. glow_px (pix glow x y)))"

text \<open>
  \<^verbatim>\<open>ImagingAlphaComposite\<close>: \<open>src\<close> over \<open>dst\<close>, with 7 extra bits of precision for
  the colour samples. \<^verbatim>\<open>SHIFTFORDIV255\<close> divides by 255.
\<close>

definition shift_for_div255 :: "int \<Rightarrow> int" where
  "shift_for_div255 a = (a div 256 + a) div 256"

definition composite_px :: "rgba \<Rightarrow> rgba \<Rightarrow> rgba" where
  "composite_px dst src =
     (if alpha src = 0 then dst
      else
        let sa = uint (alpha src); da = uint (alpha dst);
            blend = da * (255 - sa);
            outa255 = sa * 255 + blend;
            coef1 = sa * 255 * 255 * 128 div outa255;
            coef2 = 255 * 128 - coef1;
            tmpr = uint (red src) * coef1 + uint (red dst) * coef2;
            tmpg = uint (green src) * coef1 + uint (green dst) * coef2;
            tmpb = uint (blue src) * coef1 + uint (blue dst) * coef2
        in \<lparr>red = of_int (shift_for_div255 (tmpr + 128 * 128) div 128),
            green = of_int (shift_for_div255 (tmpg + 128 * 128) div 128),
            blue = of_int (shift_for_div255 (tmpb + 128 * 128) div 128),
            alpha = of_int (shift_for_div255 (outa255 + 128))\<rparr>)"

datatype error = ImagesDoNotMatch | FileNotFound

definition alpha_composite :: "rgba img \<Rightarrow> rgba img \<Rightarrow> error + rgba img" where
  "alpha_composite dst src =
     (if width dst \<noteq> width src \<or> height dst \<noteq> height src then Inl ImagesDoNotMatch
      else Inr (mk_img (width dst) (height dst) (\<lambda>x y. composite_px (pix dst x y) (pix src x y))))"

subsection \<open>The pipeline\<close>

text \<open>\<^verbatim>\<open>final\<close> of line 109, for the decoded RGBA image \<open>im\<close>.\<close>

definition final_img :: "rgba img \<Rightarrow> error + rgba img" where
  "final_img im = (let out = out_img im in alpha_composite (glow_img out) out)"

text \<open>
  The files the function reads and writes: a store from paths to decoded RGBA images.
  \<^verbatim>\<open>Image.open\<close> raises when the source is missing; \<^verbatim>\<open>final.save\<close> replaces the
  destination.
\<close>

type_synonym store = "string \<rightharpoonup> rgba img"

definition create_wireframe :: "string \<Rightarrow> string \<Rightarrow> store \<Rightarrow> error + store" where
  "create_wireframe src_path dst_path fs =
     (case fs src_path of
        None \<Rightarrow> Inl FileNotFound
      | Some im \<Rightarrow>
          (case final_img im of
             Inl e \<Rightarrow> Inl e
           | Inr final \<Rightarrow> Inr (fs(dst_path \<mapsto> final))))"

text \<open>What a run leaves at the destination path, or the error it raised.\<close>

definition output_file :: "string \<Rightarrow> error + store \<Rightarrow> error + rgba img option" where
  "output_file dst_path r = (case r of Inl e \<Rightarrow> Inl e | Inr fs \<Rightarrow> Inr (fs dst_path))"

text \<open>Two images agree on the R, G and B samples of every pixel (they may differ in alpha).\<close>

definition same_rgb :: "rgba img \<Rightarrow> rgba img \<Rightarrow> bool" where
  "same_rgb a b \<longleftrightarrow> width a = width b \<and> height a = height b
     \<and> map (map rgb_of) (rows a) = map (map rgb_of) (rows b)"

subsection \<open>The glow compositor as the specification words it\<close>

text \<open>
  The specification: "scale the glow buffer's alpha channel by 0.5 and clamp to a max of
  128", on 8-bit samples, truncated.
\<close>

definition spec_glow_alpha :: "int \<Rightarrow> int" where
  "spec_glow_alpha a = min \<lfloor>of_int a * (1 / 2 :: rat)\<rfloor> 128"

text \<open>
  The specification: "standard over alpha compositing", straight alpha. With opacities
  \<open>s\<close> and \<open>d\<close> in \<open>0..1\<close> the result has opacity \<open>s + d (1 - s)\<close>; on 8-bit
  samples, rounded to the nearest sample.
\<close>

definition spec_over_alpha :: "int \<Rightarrow> int \<Rightarrow> int" where
  "spec_over_alpha sa da =
     (let s = of_int sa / 255; d = of_int da / (255 :: rat)
      in \<lfloor>255 * (s + d * (1 - s)) + 1 / 2\<rfloor>)"

text \<open>
  The colour of "standard over alpha compositing" with straight alpha: the colours of the
  foreground \<open>cs\<close> and of the background \<open>cd\<close>, weighted by the foreground's opacity and
  by what the foreground leaves of the background's, over the opacity of the result.
\<close>

definition spec_over_colour :: "int \<Rightarrow> int \<Rightarrow> int \<Rightarrow> int \<Rightarrow> rat" where
  "spec_over_colour cs sa cd da =
     (let s = of_int sa / 255; d = of_int da / (255 :: rat)
      in (of_int cs * s + of_int cd * d * (1 - s)) / (s + d * (1 - s)))"

text \<open>
  The specification: "apply a Gaussian blur (radius 2, in the same unit as image pixels)
  to the full RGBA buffer". The radius of \<^verbatim>\<open>GaussianBlur\<close> is the standard deviation of the
  kernel, and the filter is a sequence of extended box filters that approximates the
  Gaussian kernel. An extended box filter of radius \<open>r\<close> is a weighted mean: the samples
  at distance at most \<open>\<lfloor>r\<rfloor>\<close> weigh \<open>1 / (2 r + 1)\<close>, the two samples at distance
  \<open>\<lfloor>r\<rfloor> + 1\<close> weigh \<open>(r - \<lfloor>r\<rfloor>) / (2 r + 1)\<close>, and a sample outside the line is
  the nearest sample of the line. All of it is exact arithmetic on rational numbers.
\<close>

definition spec_box_weight :: "rat \<Rightarrow> int \<Rightarrow> rat" where
  "spec_box_weight r k =
     (if \<bar>k\<bar> \<le> \<lfloor>r\<rfloor> then 1 else if \<bar>k\<bar> = \<lfloor>r\<rfloor> + 1 then r - of_int \<lfloor>r\<rfloor> else 0) / (2 * r + 1)"

definition spec_box_total :: "rat \<Rightarrow> rat" where
  "spec_box_total r = (\<Sum>k\<leftarrow>[- \<lfloor>r\<rfloor> - 1..\<lfloor>r\<rfloor> + 1]. spec_box_weight r k)"

definition spec_box_variance :: "rat \<Rightarrow> rat" where
  "spec_box_variance r = (\<Sum>k\<leftarrow>[- \<lfloor>r\<rfloor> - 1..\<lfloor>r\<rfloor> + 1]. of_int (k * k) * spec_box_weight r k)"

definition edge_index :: "nat \<Rightarrow> int \<Rightarrow> nat" where
  "edge_index n i = nat (min (max i 0) (int n - 1))"

definition spec_box_pass :: "rat \<Rightarrow> nat \<Rightarrow> (nat \<Rightarrow> rat) \<Rightarrow> nat \<Rightarrow> rat" where
  "spec_box_pass r n line x =
     (\<Sum>k\<leftarrow>[- \<lfloor>r\<rfloor> - 1..\<lfloor>r\<rfloor> + 1]. spec_box_weight r k * line (edge_index n (int x + k)))"

text \<open>One channel of an image, as a function of the position.\<close>

type_synonym plane = "nat \<Rightarrow> nat \<Rightarrow> rat"

definition spec_blur_rows :: "rat \<Rightarrow> nat \<Rightarrow> plane \<Rightarrow> plane" where
  "spec_blur_rows r w f = (\<lambda>x y. spec_box_pass r w (\<lambda>i. f i y) x)"

definition spec_blur_columns :: "rat \<Rightarrow> nat \<Rightarrow> plane \<Rightarrow> plane" where
  "spec_blur_columns r h f = (\<lambda>x y. spec_box_pass r h (\<lambda>j. f x j) y)"

text \<open>
  Variances add under repeated filtering, so three passes of a box filter of variance
  \<open>2\<^sup>2 / 3\<close> have the standard deviation 2. The extended box filter of radius
  \<open>11 / 8\<close> has that variance. The blur of radius 2 is three passes of it along the
  rows, then three along the columns.
\<close>

definition spec_box_radius :: rat where
  "spec_box_radius = 11 / 8"

definition spec_gaussian_blur2 :: "nat \<Rightarrow> nat \<Rightarrow> plane \<Rightarrow> plane" where
  "spec_gaussian_blur2 w h f =
     (spec_blur_columns spec_box_radius h ^^ 3) ((spec_blur_rows spec_box_radius w ^^ 3) f)"

text \<open>The samples of one channel of an RGBA image, and the four channels.\<close>

definition plane_of :: "(rgba \<Rightarrow> u8) \<Rightarrow> rgba img \<Rightarrow> plane" where
  "plane_of ch im = (\<lambda>x y. of_int (uint (ch (pix im x y))))"

definition channel :: "(rgba \<Rightarrow> u8) \<Rightarrow> bool" where
  "channel ch \<longleftrightarrow> ch = red \<or> ch = green \<or> ch = blue \<or> ch = alpha"

subsection \<open>The combined edge value as the specification words it\<close>

text \<open>
  The specification: "combined = clip(0.5 fine + 0.3 medium + 0.2 coarse, 0, 255)", then
  "combined = clip(combined x 2.5, 0, 255)", in exact arithmetic on rational numbers; and
  the noise floor "combined[combined < 30] = 0" on the truncated value.
\<close>

definition spec_combined :: "int \<Rightarrow> int \<Rightarrow> int \<Rightarrow> rat" where
  "spec_combined f m c =
     (let combined = clip (1 / 2 * of_int f + 3 / 10 * of_int m + 2 / 10 * of_int c) 0 255
      in clip (combined * (5 / 2)) 0 255)"


subsection \<open>Example images\<close>

definition opaque :: "u8 \<Rightarrow> rgba" where
  "opaque v = \<lparr>red = v, green = v, blue = v, alpha = 255\<rparr>"

text \<open>A single white pixel, and the same pixel fully transparent.\<close>

definition one_white :: "rgba img" where
  "one_white = \<lparr>width = 1, height = 1, rows = [[opaque 255]]\<rparr>"

definition one_white_clear :: "rgba img" where
  "one_white_clear = \<lparr>width = 1, height = 1, rows = [[(opaque 255)\<lparr>alpha := 0\<rparr>]]\<rparr>"

text \<open>An all-black, fully opaque 3x3 image.\<close>

definition black3 :: "rgba img" where
  "black3 = \<lparr>width = 3, height = 3,
     rows = [[opaque 0, opaque 0, opaque 0],
             [opaque 0, opaque 0, opaque 0],
             [opaque 0, opaque 0, opaque 0]]\<rparr>"

text \<open>Two rows of two pixels each: black, then white.\<close>

definition black_white :: "rgba img" where
  "black_white = \<lparr>width = 2, height = 2,
     rows = [[opaque 0, opaque 255],
             [opaque 0, opaque 255]]\<rparr>"

text \<open>A 3x3 image: a gray pixel of luminance 40 inside a white border.\<close>

definition ring3 :: "rgba img" where
  "ring3 = \<lparr>width = 3, height = 3,
     rows = [[opaque 255, opaque 255, opaque 255],
             [opaque 255, opaque 40, opaque 255],
             [opaque 255, opaque 255, opaque 255]]\<rparr>"

text \<open>A store holding the white pixel as the portrait source.\<close>

definition example_store :: store where
  "example_store = [''idle.png'' \<mapsto> one_white]"

subsection \<open>Values met on the example images\<close>

abbreviation gray_bw :: "u8 img" where
  "gray_bw \<equiv> \<lparr>width = 2, height = 2, rows = [[0, 255], [0, 255]]\<rparr>"

abbreviation clear_px :: rgba where
  "clear_px \<equiv> \<lparr>red = 0, green = 0, blue = 0, alpha = 0\<rparr>"

abbreviation cyan_229 :: rgba where
  "cyan_229 \<equiv> \<lparr>red = 0, green = 255, blue = 220, alpha = 229\<rparr>"

abbreviation out_bw :: "rgba img" where
  "out_bw \<equiv> \<lparr>width = 2, height = 2,
     rows = [[clear_px, cyan_229], [clear_px, cyan_229]]\<rparr>"

abbreviation gray_black3 :: "u8 img" where
  "gray_black3 \<equiv> \<lparr>width = 3, height = 3, rows = [[0, 0, 0], [0, 0, 0], [0, 0, 0]]\<rparr>"

abbreviation centre_255 :: "u8 img" where
  "centre_255 \<equiv> \<lparr>width = 3, height = 3, rows = [[0, 0, 0], [0, 255, 0], [0, 0, 0]]\<rparr>"

abbreviation violet_102 :: rgba where
  "violet_102 \<equiv> \<lparr>red = 147, green = 51, blue = 234, alpha = 102\<rparr>"

abbreviation out_black3 :: "rgba img" where
  "out_black3 \<equiv> \<lparr>width = 3, height = 3,
     rows = [[clear_px, clear_px, clear_px],
             [clear_px, violet_102, clear_px],
             [clear_px, clear_px, clear_px]]\<rparr>"

abbreviation haze :: "u8 \<Rightarrow> rgba" where
  "haze a \<equiv> \<lparr>red = 10, green = 4, blue = 17, alpha = a\<rparr>"

abbreviation gray_ring3 :: "u8 img" where
  "gray_ring3 \<equiv> \<lparr>width = 3, height = 3,
     rows = [[255, 255, 255], [255, 40, 255], [255, 255, 255]]\<rparr>"

abbreviation centre_0 :: "u8 img" where
  "centre_0 \<equiv> \<lparr>width = 3, height = 3,
     rows = [[255, 255, 255], [255, 0, 255], [255, 255, 255]]\<rparr>"

abbreviation faint_4 :: rgba where
  "faint_4 \<equiv> \<lparr>red = 0, green = 10, blue = 8, alpha = 4\<rparr>"

abbreviation out_ring3 :: "rgba img" where
  "out_ring3 \<equiv> \<lparr>width = 3, height = 3,
     rows = [[cyan_229, cyan_229, cyan_229],
             [cyan_229, faint_4, cyan_229],
             [cyan_229, cyan_229, cyan_229]]\<rparr>"

abbreviation shine :: "u8 \<Rightarrow> rgba" where
  "shine a \<equiv> \<lparr>red = 0, green = 238, blue = 205, alpha = a\<rparr>"

abbreviation lit_240 :: rgba where
  "lit_240 \<equiv> \<lparr>red = 0, green = 254, blue = 219, alpha = 240\<rparr>"

section \<open>Properties\<close>

subsection \<open>Images and sizes\<close>

lemma width_mk_img [simp]: "width (mk_img w h f) = w"
  by (simp add: mk_img_def)

lemma height_mk_img [simp]: "height (mk_img w h f) = h"
  by (simp add: mk_img_def)

lemma pix_mk_img [simp]: "x < w \<Longrightarrow> y < h \<Longrightarrow> pix (mk_img w h f) x y = f x y"
  by (simp add: mk_img_def pix_def)

lemma wf_mk_img: "0 < w \<Longrightarrow> 0 < h \<Longrightarrow> wf_img (mk_img w h f)"
  by (simp add: wf_img_def mk_img_def list_all_iff)

lemma size_convert_L [simp]:
  "width (convert_L im) = width im" "height (convert_L im) = height im"
  by (simp_all add: convert_L_def)

lemma size_filter_kernel [simp]:
  "width (filter_kernel r ker scl off im) = width im"
  "height (filter_kernel r ker scl off im) = height im"
  by (simp_all add: filter_kernel_def Let_def)

lemma size_combined_edges [simp]:
  "width (combined_edges g) = width g" "height (combined_edges g) = height g"
  by (simp_all add: combined_edges_def Let_def)

lemma size_arr_offset [simp]:
  "width (arr_offset g) = width g" "height (arr_offset g) = height g"
  by (simp_all add: arr_offset_def Let_def)

lemma size_masks [simp]:
  "width (edge_mask_of g) = width g" "height (edge_mask_of g) = height g"
  "width (offset_mask_of g) = width g" "height (offset_mask_of g) = height g"
  "width (faint_mask_of g) = width g" "height (faint_mask_of g) = height g"
  by (simp_all add: edge_mask_of_def offset_mask_of_def faint_mask_of_def
      edge_mask_def offset_mask_def faint_mask_def)

lemma size_out_img [simp]:
  "width (out_img im) = width im" "height (out_img im) = height im"
  by (simp_all add: out_img_def Let_def assign_masked_def zeros_def)

lemma size_horizontal_box_blur [simp]:
  "width (horizontal_box_blur r im) = width im"
  "height (horizontal_box_blur r im) = height im"
  by (simp_all add: horizontal_box_blur_def Let_def)

lemma size_funpow_box_blur [simp]:
  "width ((horizontal_box_blur r ^^ n) im) = width im"
  "height ((horizontal_box_blur r ^^ n) im) = height im"
  by (induction n) simp_all

lemma size_GaussianBlur2 [simp]:
  "width (GaussianBlur2 im) = width im" "height (GaussianBlur2 im) = height im"
  by (simp_all add: GaussianBlur2_def box_blur_def transpose_img_def)

lemma size_glow_img [simp]:
  "width (glow_img out) = width out" "height (glow_img out) = height out"
  by (simp_all add: glow_img_def Let_def)

lemma pix_glow_img:
  "x < width out \<Longrightarrow> y < height out \<Longrightarrow>
   pix (glow_img out) x y = glow_px (pix (GaussianBlur2 out) x y)"
  by (simp add: glow_img_def Let_def)

text \<open>The two images given to \<^verbatim>\<open>alpha_composite\<close> always match, so the call never raises.\<close>

lemma final_img_eq:
  "final_img im = Inr (mk_img (width im) (height im)
     (\<lambda>x y. composite_px (pix (glow_img (out_img im)) x y) (pix (out_img im) x y)))"
  by (simp add: final_img_def alpha_composite_def Let_def)

subsection \<open>The layers\<close>

text \<open>The masks used inside \<open>out_img\<close> are the three mask functions of the grayscale image.\<close>

lemma out_img_layers:
  "out_img im =
     (let g = convert_L im in
      assign_masked (faint_mask_of g) (\<lambda>x y. faint_px (pix g x y))
        (assign_masked (offset_mask_of g) (\<lambda>x y. offset_px (pix (arr_offset g) x y))
          (assign_masked (edge_mask_of g) (\<lambda>x y. edge_px (pix (combined_edges g) x y))
            (zeros (width im) (height im)))))"
  by (simp add: out_img_def Let_def edge_mask_of_def offset_mask_of_def faint_mask_of_def)

lemma pix_out_img:
  assumes "x < width im" "y < height im"
  shows "pix (out_img im) x y =
     (let g = convert_L im in
      if pix (faint_mask_of g) x y then faint_px (pix g x y)
      else if pix (offset_mask_of g) x y then offset_px (pix (arr_offset g) x y)
      else if pix (edge_mask_of g) x y then edge_px (pix (combined_edges g) x y)
      else \<lparr>red = 0, green = 0, blue = 0, alpha = 0\<rparr>)"
  using assms by (simp add: out_img_layers Let_def assign_masked_def zeros_def)

lemma pix_masks:
  assumes "x < width g" "y < height g"
  shows "pix (edge_mask_of g) x y \<longleftrightarrow> 0 < pix (combined_edges g) x y"
    and "pix (offset_mask_of g) x y \<longleftrightarrow>
           40 < pix (arr_offset g) x y \<and> \<not> pix (edge_mask_of g) x y"
    and "pix (faint_mask_of g) x y \<longleftrightarrow>
           30 < as_float (pix g x y) \<and> \<not> pix (edge_mask_of g) x y
           \<and> \<not> pix (offset_mask_of g) x y"
  using assms
  by (simp_all add: edge_mask_of_def offset_mask_of_def faint_mask_of_def
      edge_mask_def offset_mask_def faint_mask_def)

subsection \<open>Evaluating the floating-point model\<close>

lemma floor_rat_numeral [simp]: "\<lfloor>numeral a / numeral b :: rat\<rfloor> = numeral a div numeral b"
  by (metis floor_divide_of_int_eq of_int_numeral)

lemma floor_rat_one_numeral [simp]: "\<lfloor>1 / numeral b :: rat\<rfloor> = 1 div numeral b"
  by (metis floor_divide_of_int_eq of_int_numeral of_int_1)

lemma floor_rat_neg_numeral [simp]:
  "\<lfloor>- numeral a / numeral b :: rat\<rfloor> = - numeral a div numeral b"
  by (metis floor_divide_of_int_eq of_int_numeral of_int_minus)

lemmas fl_eval = f32_def f64_def mul32_def add32_def mul64_def fl_def exponent_of_def pow2_def
  round_half_even_def clip_def astype_uint8_def as_float_def Let_def

lemma f32_half: "f32 (1 / 2) = 1 / 2"
  by (simp add: fl_eval)

text \<open>Halving an 8-bit sample in \<^verbatim>\<open>float32\<close> is exact: checked for each of the 256 samples.\<close>

lemma halve_sample_all:
  "list_all (\<lambda>k. astype_uint8 (clip (f32 (of_int k * (1 / 2))) 0 128) = of_int (k div 2)) [0..255]"
  apply (simp add: upto.simps)
  apply (simp add: fl_eval)
  done

lemma halve_sample:
  assumes "0 \<le> k" "k \<le> 255"
  shows "astype_uint8 (clip (mul32 (of_int k) (1 / 2)) 0 128) = of_int (k div 2)"
proof -
  have "k \<in> set [0..255]" using assms by simp
  with halve_sample_all show ?thesis
    unfolding list_all_iff mul32_def f32_half by blast
qed


subsection \<open>Numeric helpers\<close>

lemma clip_bounds: "lo \<le> hi \<Longrightarrow> lo \<le> clip v lo hi \<and> clip v lo hi \<le> hi"
  by (simp add: clip_def)

lemma uint_astype_uint8: "0 \<le> v \<Longrightarrow> v < 256 \<Longrightarrow> uint (astype_uint8 v) = \<lfloor>v\<rfloor>"
proof -
  assume v: "0 \<le> v" "v < 256"
  then have "0 \<le> \<lfloor>v\<rfloor>" "\<lfloor>v\<rfloor> < 256" by (simp_all add: floor_less_iff)
  then have "take_bit 8 \<lfloor>v\<rfloor> = \<lfloor>v\<rfloor>" by (simp add: take_bit_int_eq_self)
  with v show ?thesis by (simp add: astype_uint8_def uint_word_of_int_eq)
qed

lemma astype_clip_le:
  assumes "0 \<le> b" "b \<le> 255"
  shows "uint (astype_uint8 (clip v 0 (of_int b))) \<le> b"
proof -
  have c: "0 \<le> clip v 0 (of_int b)" "clip v 0 (of_int b) \<le> of_int b"
    using assms clip_bounds [of 0 "of_int b" v] by simp_all
  then have "clip v 0 (of_int b) < 256" using assms by linarith
  with c have "uint (astype_uint8 (clip v 0 (of_int b))) = \<lfloor>clip v 0 (of_int b)\<rfloor>"
    by (simp add: uint_astype_uint8)
  also have "\<dots> \<le> b" using c(2) by (simp add: floor_le_iff)
  finally show ?thesis .
qed

lemma word8_le_numeral: "uint (w :: u8) \<le> b \<Longrightarrow> 0 \<le> b \<Longrightarrow> b \<le> 255 \<Longrightarrow> w \<le> of_int b"
  by (simp add: word_le_def uint_word_of_int_eq take_bit_int_eq_self)


subsection \<open>Alpha compositing\<close>

lemma div256_eq: "256 * a \<le> z \<Longrightarrow> z < 256 * a + 256 \<Longrightarrow> z div 256 = (a::int)"
  by arith

lemma div510_eq: "510 * a \<le> z \<Longrightarrow> z < 510 * a + 510 \<Longrightarrow> z div 510 = (a::int)"
  by arith

lemma shift_for_div255_mono: "m \<le> n \<Longrightarrow> shift_for_div255 m \<le> shift_for_div255 n"
  unfolding shift_for_div255_def by (intro zdiv_mono1 add_mono) auto

lemma shift_for_div255_exact:
  "0 \<le> a \<Longrightarrow> a \<le> 255 \<Longrightarrow> shift_for_div255 (a * 255 + 128) = a"
  unfolding shift_for_div255_def by arith

lemma shift_for_div255_colour:
  "0 \<le> r \<Longrightarrow> r \<le> 255 \<Longrightarrow> shift_for_div255 (r * 32640 + 128 * 128) div 128 = r"
  unfolding shift_for_div255_def by arith

text \<open>\<^verbatim>\<open>SHIFTFORDIV255(n + 0x80)\<close> is \<open>n / 255\<close> rounded to the nearest integer.\<close>

lemma shift_for_div255_split:
  assumes "0 \<le> k" "k \<le> 255" "0 \<le> j" "j < 255"
  shows "shift_for_div255 (255 * k + j + 128) = (if j \<le> 127 then k else k + 1)"
proof -
  define q where "q = (255 * k + j + 128) div 256"
  have q1: "256 * q \<le> 255 * k + j + 128" unfolding q_def by arith
  have q2: "255 * k + j + 128 < 256 * q + 256" unfolding q_def by arith
  have q3: "k - 1 \<le> q" using q2 assms by arith
  have q4: "q \<le> k + 1" using q1 assms by arith
  have q5: "j \<le> 127 \<Longrightarrow> q \<le> k" using q1 assms by arith
  have q6: "128 \<le> j \<Longrightarrow> k \<le> q" using q2 assms by arith
  have "(q + (255 * k + j + 128)) div 256 = (if j \<le> 127 then k else k + 1)"
  proof (cases "j \<le> 127")
    case True
    have "(q + (255 * k + j + 128)) div 256 = k"
      by (rule div256_eq) (use True q3 q5 assms in arith)+
    with True show ?thesis by simp
  next
    case False
    have "(q + (255 * k + j + 128)) div 256 = k + 1"
      by (rule div256_eq) (use False q4 q6 assms in arith)+
    with False show ?thesis by simp
  qed
  then show ?thesis by (simp add: shift_for_div255_def q_def)
qed

lemma round_div255_split:
  assumes "0 \<le> j" "j < 255"
  shows "(2 * (255 * k + j) + 255) div 510 = (if j \<le> 127 then k else k + (1::int))"
proof (cases "j \<le> 127")
  case True
  have "(2 * (255 * k + j) + 255) div 510 = k"
    by (rule div510_eq) (use True assms in arith)+
  with True show ?thesis by simp
next
  case False
  have "(2 * (255 * k + j) + 255) div 510 = k + 1"
    by (rule div510_eq) (use False assms in arith)+
  with False show ?thesis by simp
qed

lemma shift_for_div255_round:
  assumes "0 \<le> n" "n \<le> 65025"
  shows "shift_for_div255 (n + 128) = (2 * n + 255) div 510"
proof -
  define k where "k = n div 255"
  define j where "j = n mod 255"
  have n: "n = 255 * k + j" by (simp add: k_def j_def)
  have j: "0 \<le> j" "j < 255" by (simp_all add: j_def)
  have k: "0 \<le> k" "k \<le> 255" using assms unfolding k_def by arith+
  show ?thesis
    unfolding n using shift_for_div255_split [OF k j] round_div255_split [OF j, of k] by simp
qed

text \<open>The \<open>outa255\<close> of \<open>composite_px\<close> and its range.\<close>

lemma outa255_range:
  fixes sa da :: int
  assumes "0 \<le> sa" "sa \<le> 255" "0 \<le> da" "da \<le> 255"
  shows "sa * 255 \<le> sa * 255 + da * (255 - sa)" "sa * 255 + da * (255 - sa) \<le> 65025"
proof -
  have "0 \<le> da * (255 - sa)" using assms by simp
  then show "sa * 255 \<le> sa * 255 + da * (255 - sa)" by simp
  have "da * (255 - sa) \<le> 255 * (255 - sa)" using assms by (intro mult_right_mono) simp_all
  then show "sa * 255 + da * (255 - sa) \<le> 65025" by simp
qed

lemma uint8_range: "0 \<le> uint (w :: u8)" "uint (w :: u8) \<le> 255"
  using uint_bounded [of w] by simp_all

lemma alpha_composite_px:
  "uint (alpha (composite_px dst src)) =
     (if alpha src = 0 then uint (alpha dst)
      else shift_for_div255 (uint (alpha src) * 255 + uint (alpha dst) * (255 - uint (alpha src)) + 128))"
proof (cases "alpha src = 0")
  case True
  then show ?thesis by (simp add: composite_px_def)
next
  case False
  let ?n = "uint (alpha src) * 255 + uint (alpha dst) * (255 - uint (alpha src))"
  have r: "0 \<le> ?n" "?n \<le> 65025"
    using outa255_range [of "uint (alpha src)" "uint (alpha dst)"] uint8_range [of "alpha src"]
      uint8_range [of "alpha dst"] by simp_all
  have "shift_for_div255 (?n + 128) \<le> shift_for_div255 (255 * 255 + 128)"
    using r by (intro shift_for_div255_mono) simp
  also have "\<dots> = 255" using shift_for_div255_exact [of 255] by simp
  finally have hi: "shift_for_div255 (?n + 128) \<le> 255" .
  have "shift_for_div255 (0 * 255 + 128) \<le> shift_for_div255 (?n + 128)"
    using r by (intro shift_for_div255_mono) simp
  then have lo: "0 \<le> shift_for_div255 (?n + 128)"
    using shift_for_div255_exact [of 0] by simp
  have "take_bit 8 (shift_for_div255 (?n + 128)) = shift_for_div255 (?n + 128)"
    using lo hi by (simp add: take_bit_int_eq_self)
  with False show ?thesis
    by (simp add: composite_px_def Let_def uint_word_of_int_eq)
qed

lemma composite_px_alpha_ge: "alpha src \<le> alpha (composite_px dst src)"
proof (cases "alpha src = 0")
  case True
  then show ?thesis by simp
next
  case False
  let ?sa = "uint (alpha src)"
  let ?n = "?sa * 255 + uint (alpha dst) * (255 - ?sa)"
  have r: "?sa * 255 \<le> ?n"
    using outa255_range [of ?sa "uint (alpha dst)"] uint8_range [of "alpha src"]
      uint8_range [of "alpha dst"] by simp
  have "?sa = shift_for_div255 (?sa * 255 + 128)"
    using shift_for_div255_exact [of ?sa] uint8_range [of "alpha src"] by simp
  also have "\<dots> \<le> shift_for_div255 (?n + 128)"
    using r by (intro shift_for_div255_mono) simp
  finally show ?thesis using False by (simp add: word_le_def alpha_composite_px)
qed

lemma composite_px_spec_alpha:
  "uint (alpha (composite_px dst src)) = spec_over_alpha (uint (alpha src)) (uint (alpha dst))"
proof -
  let ?sa = "uint (alpha src)" and ?da = "uint (alpha dst)"
  let ?n = "?sa * 255 + ?da * (255 - ?sa)"
  have r: "0 \<le> ?n" "?n \<le> 65025"
    using outa255_range [of ?sa ?da] uint8_range [of "alpha src"] uint8_range [of "alpha dst"]
    by simp_all
  have "255 * (of_int ?sa / 255 + of_int ?da / 255 * (1 - of_int ?sa / 255)) + 1 / 2
          = (of_int (2 * ?n + 255) :: rat) / of_int 510"
    by (simp add: field_simps)
  then have spec: "spec_over_alpha ?sa ?da = (2 * ?n + 255) div 510"
    unfolding spec_over_alpha_def Let_def by (simp only: floor_divide_of_int_eq)
  show ?thesis
  proof (cases "alpha src = 0")
    case True
    then have "?sa = 0" by simp
    then have "spec_over_alpha ?sa ?da = ?da"
      unfolding spec by (simp add: div510_eq uint8_range)
    with True show ?thesis by (simp add: alpha_composite_px)
  next
    case False
    then show ?thesis
      using shift_for_div255_round [OF r] by (simp add: alpha_composite_px spec)
  qed
qed

lemma composite_px_clear: "alpha src = 0 \<Longrightarrow> composite_px dst src = dst"
  by (simp add: composite_px_def)

lemma composite_px_opaque:
  assumes "alpha src = 255"
  shows "composite_px dst src = src"
proof -
  have a: "uint (alpha src) = 255" "alpha src \<noteq> 0" using assms by simp_all
  have c: "\<And>r :: u8. (word_of_int (shift_for_div255 (uint r * 32640 + 128 * 128) div 128) :: u8) = r"
    using shift_for_div255_colour uint8_range by simp
  have "composite_px dst src = \<lparr>red = red src, green = green src, blue = blue src, alpha = 255\<rparr>"
    using c by (simp add: composite_px_def Let_def a shift_for_div255_def)
  then show ?thesis using assms by simp
qed


subsection \<open>The glow buffer\<close>

lemma as_float_uint: "as_float v = of_int (uint v)"
  by (simp add: as_float_def)

lemma glow_px_rgb [simp]:
  "red (glow_px p) = red p" "green (glow_px p) = green p" "blue (glow_px p) = blue p"
  by (simp_all add: glow_px_def)

lemma glow_px_alpha_le: "alpha (glow_px p) \<le> 128"
proof -
  have "uint (alpha (glow_px p)) \<le> 128"
    using astype_clip_le [of 128] by (simp add: glow_px_def)
  then show ?thesis using word8_le_numeral [of _ 128] by simp
qed

lemma glow_px_alpha_exact: "uint (alpha (glow_px p)) = spec_glow_alpha (uint (alpha p))"
proof -
  let ?k = "uint (alpha p)"
  have k: "0 \<le> ?k" "?k \<le> 255" using uint8_range by simp_all
  have "alpha (glow_px p) = of_int (?k div 2)"
    using halve_sample [OF k] by (simp add: glow_px_def as_float_uint)
  moreover have "0 \<le> ?k div 2" "?k div 2 < 256" using k by arith+
  ultimately have "uint (alpha (glow_px p)) = ?k div 2"
    by (simp add: uint_word_of_int_eq take_bit_int_eq_self)
  moreover have "\<lfloor>rat_of_int ?k * (1 / 2)\<rfloor> = ?k div 2"
    using floor_divide_of_int_eq [of ?k 2, where ?'a = rat] by simp
  moreover have "?k div 2 \<le> 128" using k by arith
  ultimately show ?thesis by (simp add: spec_glow_alpha_def)
qed


subsection \<open>The source image's alpha channel\<close>

lemma same_rgb_convert_L: "same_rgb a b \<Longrightarrow> convert_L a = convert_L b"
proof -
  assume s: "same_rgb a b"
  have r: "map (map rgb2l) xs = map (map l24) (map (map rgb_of) xs)" for xs
    by (simp add: rgb2l_def comp_def)
  have "map (map rgb2l) (rows a) = map (map l24) (map (map rgb_of) (rows a))"
    by (rule r)
  also have "\<dots> = map (map l24) (map (map rgb_of) (rows b))"
    using s by (simp only: same_rgb_def)
  also have "\<dots> = map (map rgb2l) (rows b)"
    by (rule r [symmetric])
  finally show ?thesis using s by (simp add: convert_L_def same_rgb_def)
qed

lemma same_rgb_final_img: "same_rgb a b \<Longrightarrow> final_img a = final_img b"
proof -
  assume s: "same_rgb a b"
  then have "out_img a = out_img b"
    using same_rgb_convert_L [OF s] by (simp add: out_img_def same_rgb_def)
  then show ?thesis by (simp add: final_img_def)
qed

subsection \<open>Bands of the layer colours\<close>

lemma faint_px_bands:
  "red (faint_px l) = 0" "green (faint_px l) \<le> 80" "blue (faint_px l) \<le> 70"
  "alpha (faint_px l) \<le> 40"
proof -
  show "red (faint_px l) = 0" by (simp add: faint_px_def)
  have "uint (green (faint_px l)) \<le> 80"
    using astype_clip_le [of 80] by (simp add: faint_px_def)
  then show "green (faint_px l) \<le> 80" using word8_le_numeral [of _ 80] by simp
  have "uint (blue (faint_px l)) \<le> 70"
    using astype_clip_le [of 70] by (simp add: faint_px_def)
  then show "blue (faint_px l) \<le> 70" using word8_le_numeral [of _ 70] by simp
  have "uint (alpha (faint_px l)) \<le> 40"
    using astype_clip_le [of 40] by (simp add: faint_px_def)
  then show "alpha (faint_px l) \<le> 40" using word8_le_numeral [of _ 40] by simp
qed

lemma offset_px_alpha_le: "alpha (offset_px v) \<le> 180"
proof -
  have "uint (alpha (offset_px v)) \<le> 180"
    using astype_clip_le [of 180] by (simp add: offset_px_def HOLO_VIOLET_def)
  then show ?thesis using word8_le_numeral [of _ 180] by simp
qed

subsection \<open>Rounding error of the floating-point model\<close>

lemma pow2_pos: "0 < pow2 e"
  by (simp add: pow2_def)

lemma pow2_add: "pow2 (a + b) = pow2 a * pow2 b"
proof -
  have "pow2 e = 2 powi e" for e
    by (simp add: pow2_def power_int_def field_simps)
  then show ?thesis by (simp add: power_int_add)
qed

lemma pow2_mono: "a \<le> b \<Longrightarrow> pow2 a \<le> pow2 b"
proof -
  assume "a \<le> b"
  have "pow2 e = 2 powi e" for e
    by (simp add: pow2_def power_int_def field_simps)
  then show ?thesis using \<open>a \<le> b\<close> by (simp add: power_int_increasing)
qed

lemma fold_invariant:
  assumes "P a" "\<And>s lo. P lo \<Longrightarrow> P (f s lo)"
  shows "P (fold f xs a)"
  using assms(1) by (induction xs arbitrary: a) (simp_all add: assms(2))

lemma exponent_of_le:
  assumes "x < pow2 k" "emin < k"
  shows "exponent_of emin x < k"
proof -
  have "exponent_of emin x = emin \<or> pow2 (exponent_of emin x) \<le> x"
    unfolding exponent_of_def
    by (rule fold_invariant [where P = "\<lambda>lo. lo = emin \<or> pow2 lo \<le> x"]) auto
  then show ?thesis
  proof
    assume "exponent_of emin x = emin" then show ?thesis using assms by simp
  next
    assume "pow2 (exponent_of emin x) \<le> x"
    then have "pow2 (exponent_of emin x) < pow2 k" using assms by simp
    then show ?thesis using pow2_mono [of k "exponent_of emin x"] by (cases "exponent_of emin x < k") auto
  qed
qed

lemma round_half_even_error: "\<bar>of_int (round_half_even m) - m\<bar> \<le> 1 / 2"
  unfolding round_half_even_def Let_def by (auto simp: abs_if) linarith+

lemma fl_error:
  assumes "\<bar>x\<bar> < pow2 k" "emin < k"
  shows "\<bar>fl p emin x - x\<bar> \<le> pow2 (k - int p) / 2"
proof -
  define e where "e = exponent_of emin \<bar>x\<bar>"
  define q where "q = pow2 (e - int p + 1)"
  have e: "e < k" unfolding e_def using assms by (rule exponent_of_le)
  have q: "0 < q" "q \<le> pow2 (k - int p)"
    unfolding q_def using e by (auto intro: pow2_pos pow2_mono)
  define n where "n = round_half_even (\<bar>x\<bar> / q)"
  have fl: "fl p emin x = sgn x * of_int n * q"
    by (simp add: fl_def Let_def e_def q_def n_def)
  define m where "m = \<bar>x\<bar> / q"
  have mq: "m * q = \<bar>x\<bar>" using q by (simp add: m_def)
  have "\<bar>of_int n - m\<bar> \<le> 1 / 2" unfolding n_def m_def by (rule round_half_even_error)
  then have "\<bar>of_int n - m\<bar> * q \<le> 1 / 2 * q" using q by (intro mult_right_mono) simp_all
  moreover have "\<bar>of_int n - m\<bar> * q = \<bar>(of_int n - m) * q\<bar>"
    using q by (simp add: abs_mult)
  moreover have "(of_int n - m) * q = of_int n * q - \<bar>x\<bar>"
    by (simp add: left_diff_distrib mq)
  ultimately have "\<bar>of_int n * q - \<bar>x\<bar>\<bar> \<le> q / 2" by simp
  then have main: "\<bar>of_int n * q - \<bar>x\<bar>\<bar> \<le> pow2 (k - int p) / 2" using q by linarith
  show ?thesis
  proof (cases "x = 0")
    case True
    have "fl p emin x = 0" unfolding fl using True by simp
    then have "fl p emin x - x = 0" using True by simp
    then show ?thesis using pow2_pos [of "k - int p"] by simp
  next
    case False
    have "fl p emin x - x = sgn x * (of_int n * q) - sgn x * \<bar>x\<bar>"
      by (simp add: fl mult.assoc flip: mult_sgn_abs)
    also have "\<dots> = sgn x * (of_int n * q - \<bar>x\<bar>)" by (simp add: right_diff_distrib)
    finally have "\<bar>fl p emin x - x\<bar> = \<bar>of_int n * q - \<bar>x\<bar>\<bar>"
      using False by (simp add: abs_mult abs_sgn_eq)
    then show ?thesis using main by simp
  qed
qed


subsection \<open>The combined edge value against the exact formula\<close>




lemma rat_of_u8_range:
  "0 \<le> (of_int (uint (w :: u8)) :: rat)" "(of_int (uint (w :: u8)) :: rat) \<le> 255"
  using uint8_range [of w] by (metis of_int_0_le_iff, metis of_int_le_iff of_int_numeral)








text \<open>
  The rounding of \<^verbatim>\<open>float32\<close> is visible: for the edge values 0, 2 and 169 the exact
  formula gives the whole number 86, the code computes a value just below it and
  truncates it to 85.
\<close>

lemma combined_px_rounded_down:
  "combined_px 0 2 169 = 85" "spec_combined 0 2 169 = 86"
  by (simp_all add: combined_px_def noise_floor_def boost_def weighted_sum_def spec_combined_def
      fl_eval)

subsection \<open>The alpha of the violet layer\<close>

lemma f64_two_fifths: "f64 (2 / 5) = 3602879701896397 / 9007199254740992"
  by (simp add: fl_eval)

lemma f64_error:
  assumes "\<bar>x\<bar> < 2 ^ k"
  shows "\<bar>f64 x - x\<bar> \<le> 2 ^ k / 2 ^ 54"
proof -
  have "\<bar>x\<bar> < pow2 (int k)" using assms by (simp add: pow2_def)
  then have "\<bar>f64 x - x\<bar> \<le> pow2 (int k - int 53) / 2"
    unfolding f64_def by (rule fl_error) simp
  also have "pow2 (int k - int 53) = pow2 (int k) * pow2 (- 53)"
    using pow2_add [of "int k" "- 53"] by simp
  also have "\<dots> = 2 ^ k / 2 ^ 53" by (simp add: pow2_def)
  finally show ?thesis by simp
qed

lemma offset_px_alpha_102: "uint (alpha (offset_px v)) \<le> 102"
proof -
  define F :: rat where "F = of_int (uint v)"
  define a where "a = f64 (F * (3602879701896397 / 9007199254740992))"
  have r: "0 \<le> F" "F \<le> 255" unfolding F_def by (rule rat_of_u8_range)+
  have "\<bar>a - F * (3602879701896397 / 9007199254740992)\<bar> \<le> 2 ^ 7 / 2 ^ 54"
    unfolding a_def using r by (intro f64_error) (simp add: abs_if)
  then have a: "a < 103" using r by (simp add: abs_if split: if_splits)
  have "clip a 0 180 < 103" "0 \<le> clip a 0 180" using a by (simp_all add: clip_def)
  then have "uint (astype_uint8 (clip a 0 180)) \<le> 102"
    by (simp add: uint_astype_uint8 floor_le_iff)
  moreover have "alpha (offset_px v) = astype_uint8 (clip a 0 180)"
    by (simp add: offset_px_def HOLO_VIOLET_def mul64_def f64_two_fifths as_float_uint a_def F_def)
  ultimately show ?thesis by simp
qed

lemma composite_px_alpha_violet:
  assumes "uint (alpha src) \<le> 102" "uint (alpha dst) \<le> 128"
  shows "alpha (composite_px dst src) \<le> 180"
proof -
  let ?sa = "uint (alpha src)" and ?da = "uint (alpha dst)"
  have s: "0 \<le> ?sa" "0 \<le> ?da" by simp_all
  have "uint (alpha (composite_px dst src)) \<le> 180"
  proof (cases "alpha src = 0")
    case True
    then show ?thesis using assms by (simp add: alpha_composite_px)
  next
    case False
    have "?da * (255 - ?sa) \<le> 128 * (255 - ?sa)"
      using assms s by (intro mult_right_mono) simp_all
    then have "?sa * 255 + ?da * (255 - ?sa) + 128 \<le> 46027" using assms by simp
    then have "shift_for_div255 (?sa * 255 + ?da * (255 - ?sa) + 128) \<le> shift_for_div255 46027"
      by (rule shift_for_div255_mono)
    also have "\<dots> \<le> 180" by (simp add: shift_for_div255_def)
    finally show ?thesis using False by (simp add: alpha_composite_px)
  qed
  then show ?thesis using word8_le_numeral [of _ 180] by simp
qed


subsection \<open>The blur against the exact extended box filter\<close>

text \<open>The parameters of one box-blur pass for \<^verbatim>\<open>GaussianBlur(radius=2)\<close>.\<close>

lemma gaussian_blur_radius_eq: "gaussian_blur_radius = 11 / 8"
  by (simp add: gaussian_blur_radius_def)

lemma horizontal_box_blur_eq:
  "horizontal_box_blur (11 / 8) im =
     \<lparr>width = width im, height = height im,
      rows = map (line_box_blur 1 4473924 1677722) (rows im)\<rparr>"
  by (simp add: horizontal_box_blur_def fl_eval)

lemma spec_box_pass_eq:
  "spec_box_pass (11 / 8) n line x =
     1 / 10 * line (edge_index n (int x - 2))
     + 4 / 15 * line (edge_index n (int x - 1)) + 4 / 15 * line (edge_index n (int x))
     + 4 / 15 * line (edge_index n (int x + 1))
     + 1 / 10 * line (edge_index n (int x + 2))"
  by (simp add: spec_box_pass_def spec_box_weight_def upto.simps algebra_simps)

text \<open>The weights of the box filter are a mean, of variance \<open>2\<^sup>2 / 3\<close>.\<close>

lemma spec_box_moments:
  "spec_box_total spec_box_radius = 1" "3 * spec_box_variance spec_box_radius = 2 ^ 2"
  by (simp_all add: spec_box_total_def spec_box_variance_def spec_box_radius_def
      spec_box_weight_def upto.simps)

lemma edge_index_less: "0 < n \<Longrightarrow> edge_index n i < n"
  by (simp add: edge_index_def)

lemma clamp_index_edge: "0 < n \<Longrightarrow> clamp_index i (n - Suc 0) = edge_index n i"
  by (auto simp: clamp_index_def edge_index_def)

lemma blur_sample_eq:
  assumes "0 < length line"
  shows "blur_sample 1 ww fw line x =
    ((line ! edge_index (length line) (int x - 1) + line ! edge_index (length line) (int x)
      + line ! edge_index (length line) (int x + 1)) * ww
     + (line ! edge_index (length line) (int x - 2)
        + line ! edge_index (length line) (int x + 2)) * fw + 2 ^ 23) div 2 ^ 24"
  using assms
  by (simp add: blur_sample_def Let_def clamp_index_edge upt_rec [of 0] upt_rec [of 1] upt_rec [of 2]
      numeral_3_eq_3 ac_simps)


lemma div_2_24_round:
  fixes B :: int
  shows "\<bar>(of_int ((B + 2 ^ 23) div 2 ^ 24) :: rat) - of_int B / 2 ^ 24\<bar> \<le> 1 / 2"
proof -
  define r where "r = (B + 8388608) div 16777216"
  have "16777216 * r \<le> B + 8388608" "B + 8388608 < 16777216 * r + 16777216"
    unfolding r_def by arith+
  then have "(of_int (16777216 * r) :: rat) \<le> of_int (B + 8388608)"
    "(of_int (B + 8388608) :: rat) < of_int (16777216 * r + 16777216)"
    by (simp_all only: of_int_le_iff of_int_less_iff)
  then have "\<bar>(of_int r :: rat) - of_int B / 16777216\<bar> \<le> 1 / 2"
    by (simp add: abs_if field_simps)
  then show ?thesis by (simp add: r_def)
qed

lemma blur_sample_error:
  assumes n: "0 < length line" and s: "\<forall>v\<in>set line. 0 \<le> v \<and> v \<le> 255"
  shows "0 \<le> blur_sample 1 4473924 1677722 line x"
    "blur_sample 1 4473924 1677722 line x \<le> 255"
    "\<bar>of_int (blur_sample 1 4473924 1677722 line x)
       - spec_box_pass (11 / 8) (length line) (\<lambda>i. of_int (line ! i)) x\<bar> \<le> 1 / 2 + 1 / 40000"
proof -
  define p where "p k = line ! edge_index (length line) (int x + k)" for k
  have p: "0 \<le> p k \<and> p k \<le> 255" for k
    using s n unfolding p_def by (simp add: edge_index_less)
  define B where "B = (p (- 1) + p 0 + p 1) * 4473924 + (p (- 2) + p 2) * 1677722"
  have b: "blur_sample 1 4473924 1677722 line x = (B + 2 ^ 23) div 2 ^ 24"
    unfolding blur_sample_eq [OF n] by (simp add: B_def p_def)
  have B: "0 \<le> B" "B \<le> 255 * 2 ^ 24"
    using p [of "- 1"] p [of 0] p [of 1] p [of "- 2"] p [of 2] by (simp_all add: B_def)
  show "0 \<le> blur_sample 1 4473924 1677722 line x" unfolding b using B by simp
  show "blur_sample 1 4473924 1677722 line x \<le> 255" unfolding b using B by simp
  define P :: "int \<Rightarrow> rat" where "P k = of_int (p k)" for k
  have P: "0 \<le> P k \<and> P k \<le> 255" for k using p [of k] by (simp add: P_def)
  have e: "spec_box_pass (11 / 8) (length line) (\<lambda>i. of_int (line ! i)) x
      = 1 / 10 * P (- 2) + 4 / 15 * P (- 1) + 4 / 15 * P 0 + 4 / 15 * P 1 + 1 / 10 * P 2"
    by (simp add: spec_box_pass_eq P_def p_def)
  have Bq: "(of_int B :: rat) = (P (- 1) + P 0 + P 1) * 4473924 + (P (- 2) + P 2) * 1677722"
    by (simp add: B_def P_def)
  have "\<bar>(of_int B :: rat) / 2 ^ 24
      - (1 / 10 * P (- 2) + 4 / 15 * P (- 1) + 4 / 15 * P 0 + 4 / 15 * P 1 + 1 / 10 * P 2)\<bar>
        \<le> 1 / 40000"
    unfolding Bq using P [of "- 1"] P [of 0] P [of 1] P [of "- 2"] P [of 2]
    by (simp add: abs_if field_simps)
  then show "\<bar>of_int (blur_sample 1 4473924 1677722 line x)
       - spec_box_pass (11 / 8) (length line) (\<lambda>i. of_int (line ! i)) x\<bar> \<le> 1 / 2 + 1 / 40000"
    unfolding b e using div_2_24_round [of B] by linarith
qed


lemma wf_img_row: "wf_img im \<Longrightarrow> y < height im \<Longrightarrow> length (rows im ! y) = width im"
  by (simp add: wf_img_def list_all_length)

lemma length_line_box_blur: "length (line_box_blur r ww fw line) = length line"
  by (simp add: line_box_blur_def Let_def)

lemma wf_horizontal_box_blur: "wf_img im \<Longrightarrow> wf_img (horizontal_box_blur (11 / 8) im)"
  by (simp add: horizontal_box_blur_eq wf_img_def list_all_length length_line_box_blur)

lemma wf_funpow_box_blur: "wf_img im \<Longrightarrow> wf_img ((horizontal_box_blur (11 / 8) ^^ n) im)"
  by (induction n) (simp_all add: wf_horizontal_box_blur)

lemma uint_of_sample: "0 \<le> v \<Longrightarrow> v \<le> 255 \<Longrightarrow> uint (of_int v :: u8) = v"
  by (simp add: uint_word_of_int_eq take_bit_int_eq_self)

lemma channel_line_box_blur:
  assumes "channel ch" "0 < length line" "x < length line"
  shows "uint (ch (line_box_blur 1 4473924 1677722 line ! x))
     = blur_sample 1 4473924 1677722 (map (\<lambda>p. uint (ch p)) line) x"
proof -
  have r: "0 \<le> blur_sample 1 4473924 1677722 (map (\<lambda>p. uint (c p)) line) x
      \<and> blur_sample 1 4473924 1677722 (map (\<lambda>p. uint (c p)) line) x \<le> 255" for c :: "rgba \<Rightarrow> u8"
    using blur_sample_error(1,2) [of "map (\<lambda>p. uint (c p)) line" x] assms(2) uint8_range
    by simp
  show ?thesis
    using assms(1,3) r [of red] r [of green] r [of blue] r [of alpha]
    unfolding channel_def line_box_blur_def Let_def
    by (auto simp: uint_of_sample)
qed

lemma plane_of_box_blur:
  assumes "wf_img im" "channel ch" "x < width im" "y < height im"
  shows "\<bar>plane_of ch (horizontal_box_blur (11 / 8) im) x y
           - spec_blur_rows (11 / 8) (width im) (plane_of ch im) x y\<bar> \<le> 1 / 2 + 1 / 40000"
proof -
  define line where "line = rows im ! y"
  define ks where "ks = map (\<lambda>p. uint (ch p)) line"
  have len: "length line = width im" unfolding line_def using assms by (simp add: wf_img_row)
  have y: "y < length (rows im)" using assms by (simp add: wf_img_def)
  have w: "0 < width im" using assms by simp
  have px: "pix (horizontal_box_blur (11 / 8) im) x y = line_box_blur 1 4473924 1677722 line ! x"
    unfolding horizontal_box_blur_eq using y by (simp add: pix_def line_def)
  have "uint (ch (pix (horizontal_box_blur (11 / 8) im) x y)) = blur_sample 1 4473924 1677722 ks x"
    unfolding px ks_def using assms(3) len by (intro channel_line_box_blur [OF assms(2)]) simp_all
  then have lhs: "plane_of ch (horizontal_box_blur (11 / 8) im) x y
      = of_int (blur_sample 1 4473924 1677722 ks x)"
    unfolding plane_of_def by (simp only:)
  have nth: "of_int (ks ! edge_index (width im) i) = plane_of ch im (edge_index (width im) i) y" for i
    using edge_index_less [OF w, of i] len by (simp add: ks_def plane_of_def pix_def line_def)
  have lk: "length ks = width im" by (simp add: ks_def len)
  have rhs: "spec_blur_rows (11 / 8) (width im) (plane_of ch im) x y
      = spec_box_pass (11 / 8) (length ks) (\<lambda>i. of_int (ks ! i)) x"
    unfolding spec_blur_rows_def spec_box_pass_eq lk nth by (rule refl)
  have "0 < length ks" "\<forall>v\<in>set ks. 0 \<le> v \<and> v \<le> 255"
    using len w uint8_range by (auto simp: ks_def)
  from blur_sample_error(3) [OF this, of x] show ?thesis unfolding lhs rhs .
qed

lemma spec_blur_rows_nonexpansive:
  assumes "0 < w" "\<forall>i<w. \<bar>f i y - g i y\<bar> \<le> d"
  shows "\<bar>spec_blur_rows (11 / 8) w f x y - spec_blur_rows (11 / 8) w g x y\<bar> \<le> d"
proof -
  have e: "\<bar>f (edge_index w i) y - g (edge_index w i) y\<bar> \<le> d" for i
    using assms edge_index_less [of w i] by simp
  show ?thesis
    unfolding spec_blur_rows_def spec_box_pass_eq
    using e [of "int x - 2"] e [of "int x - 1"] e [of "int x"] e [of "int x + 1"] e [of "int x + 2"]
    by linarith
qed

lemma plane_of_funpow_box_blur:
  assumes "wf_img im" "channel ch"
    and "\<forall>x<width im. \<forall>y<height im. \<bar>plane_of ch im x y - g x y\<bar> \<le> d"
  shows "\<forall>x<width im. \<forall>y<height im.
    \<bar>plane_of ch ((horizontal_box_blur (11 / 8) ^^ n) im) x y
       - (spec_blur_rows (11 / 8) (width im) ^^ n) g x y\<bar> \<le> d + of_nat n * (1 / 2 + 1 / 40000)"
proof (induction n)
  case 0
  then show ?case using assms by simp
next
  case (Suc n)
  let ?H = "horizontal_box_blur (11 / 8)" and ?R = "spec_blur_rows (11 / 8) (width im)"
  let ?im = "(?H ^^ n) im" and ?g = "(?R ^^ n) g"
  show ?case
  proof (intro allI impI)
    fix x y assume x: "x < width im" and y: "y < height im"
    have wf: "wf_img ?im" using assms(1) by (rule wf_funpow_box_blur)
    have a: "\<bar>plane_of ch (?H ?im) x y - ?R (plane_of ch ?im) x y\<bar> \<le> 1 / 2 + 1 / 40000"
      using plane_of_box_blur [OF wf assms(2), of x y] x y by simp
    have "\<forall>i<width im. \<bar>plane_of ch ?im i y - ?g i y\<bar> \<le> d + of_nat n * (1 / 2 + 1 / 40000)"
      using Suc y by simp
    then have b: "\<bar>?R (plane_of ch ?im) x y - ?R ?g x y\<bar> \<le> d + of_nat n * (1 / 2 + 1 / 40000)"
      using x by (intro spec_blur_rows_nonexpansive) simp_all
    have "\<bar>plane_of ch (?H ?im) x y - ?R ?g x y\<bar>
        \<le> d + of_nat n * (1 / 2 + 1 / 40000) + (1 / 2 + 1 / 40000)"
      using a b by linarith
    moreover have "of_nat (Suc n) * (1 / 2 + 1 / 40000 :: rat)
        = of_nat n * (1 / 2 + 1 / 40000) + (1 / 2 + 1 / 40000)"
      by (simp add: algebra_simps)
    moreover have "(?H ^^ Suc n) im = ?H ?im" "(?R ^^ Suc n) g = ?R ?g" by simp_all
    ultimately show "\<bar>plane_of ch ((?H ^^ Suc n) im) x y - (?R ^^ Suc n) g x y\<bar>
        \<le> d + of_nat (Suc n) * (1 / 2 + 1 / 40000)"
      by (simp only:)
  qed
qed

lemma spec_blur_rows_flip:
  "(spec_blur_rows r h ^^ n) (\<lambda>x y. f y x) = (\<lambda>x y. (spec_blur_columns r h ^^ n) f y x)"
  by (induction n) (simp_all add: spec_blur_rows_def spec_blur_columns_def)

lemma plane_of_transpose:
  "x < height im \<Longrightarrow> y < width im \<Longrightarrow> plane_of ch (transpose_img im) x y = plane_of ch im y x"
  by (simp add: plane_of_def transpose_img_def)

lemma wf_transpose_img: "0 < width im \<Longrightarrow> 0 < height im \<Longrightarrow> wf_img (transpose_img im)"
  by (simp add: transpose_img_def wf_mk_img)

lemma size_transpose_img:
  "width (transpose_img im) = height im" "height (transpose_img im) = width im"
  by (simp_all add: transpose_img_def)

lemma wf_out_img: "0 < width im \<Longrightarrow> 0 < height im \<Longrightarrow> wf_img (out_img im)"
  by (simp add: out_img_def Let_def assign_masked_def zeros_def wf_mk_img)

lemma GaussianBlur2_spec:
  assumes "wf_img im" "channel ch" "x < width im" "y < height im"
  shows "\<bar>plane_of ch (GaussianBlur2 im) x y
           - spec_gaussian_blur2 (width im) (height im) (plane_of ch im) x y\<bar> \<le> 3 + 1 / 1000"
proof -
  let ?H = "horizontal_box_blur (11 / 8)"
  define im1 where "im1 = (?H ^^ 3) im"
  define g1 where "g1 = (spec_blur_rows (11 / 8) (width im) ^^ 3) (plane_of ch im)"
  define im2 where "im2 = transpose_img im1"
  define im3 where "im3 = (?H ^^ 3) im2"
  have G: "GaussianBlur2 im = transpose_img im3"
    by (simp add: GaussianBlur2_def box_blur_def gaussian_blur_radius_eq im1_def im2_def im3_def)
  have s1: "width im1 = width im" "height im1 = height im" by (simp_all add: im1_def)
  have s2: "width im2 = height im" "height im2 = width im"
    by (simp_all add: im2_def s1 size_transpose_img)
  have s3: "width im3 = height im" "height im3 = width im" by (simp_all add: im3_def s2)
  have pos: "0 < width im" "0 < height im" using assms by simp_all
  have "\<forall>x<width im. \<forall>y<height im. \<bar>plane_of ch im x y - plane_of ch im x y\<bar> \<le> 0" by simp
  from plane_of_funpow_box_blur [OF assms(1,2) this, of 3]
  have e1: "\<forall>x<width im. \<forall>y<height im. \<bar>plane_of ch im1 x y - g1 x y\<bar> \<le> 3 * (1 / 2 + 1 / 40000)"
    by (simp add: im1_def g1_def)
  have wf2: "wf_img im2" unfolding im2_def using pos by (intro wf_transpose_img) (simp_all add: s1)
  have "\<forall>x<width im2. \<forall>y<height im2.
      \<bar>plane_of ch im2 x y - (\<lambda>x y. g1 y x) x y\<bar> \<le> 3 * (1 / 2 + 1 / 40000)"
    using e1 by (simp add: im2_def plane_of_transpose s1 size_transpose_img)
  from plane_of_funpow_box_blur [OF wf2 assms(2) this, of 3]
  have e3: "\<forall>x<height im. \<forall>y<width im.
      \<bar>plane_of ch im3 x y - (spec_blur_rows (11 / 8) (height im) ^^ 3) (\<lambda>x y. g1 y x) x y\<bar>
        \<le> 3 * (1 / 2 + 1 / 40000) + 3 * (1 / 2 + 1 / 40000)"
    by (simp add: s2 im3_def)
  have spec: "spec_gaussian_blur2 (width im) (height im) (plane_of ch im) x y
      = (spec_blur_rows (11 / 8) (height im) ^^ 3) (\<lambda>x y. g1 y x) y x"
    by (simp add: spec_gaussian_blur2_def spec_box_radius_def spec_blur_rows_flip g1_def)
  have "plane_of ch (GaussianBlur2 im) x y = plane_of ch im3 y x"
    unfolding G using assms by (simp add: plane_of_transpose s3)
  moreover have "\<bar>plane_of ch im3 y x
      - (spec_blur_rows (11 / 8) (height im) ^^ 3) (\<lambda>x y. g1 y x) y x\<bar>
        \<le> 3 * (1 / 2 + 1 / 40000) + 3 * (1 / 2 + 1 / 40000)"
    using e3 assms(3,4) by simp
  ultimately show ?thesis unfolding spec by simp
qed


subsection \<open>The colours of the composite\<close>

lemma colour_shift_bounds:
  assumes "0 \<le> t" "t \<le> 8323200"
  shows "0 \<le> shift_for_div255 (t + 128 * 128) div 128"
    "shift_for_div255 (t + 128 * 128) div 128 \<le> 255"
    "32640 * (shift_for_div255 (t + 128 * 128) div 128) - 16384 \<le> t"
    "t < 32640 * (shift_for_div255 (t + 128 * 128) div 128) + 16640"
  using assms unfolding shift_for_div255_def by arith+

lemma spec_over_colour_eq:
  fixes cs cd sa da :: int
  assumes "0 < sa * 255 + da * (255 - sa)"
  shows "spec_over_colour cs sa cd da
     = of_int (cs * (sa * 255) + cd * (da * (255 - sa))) / of_int (sa * 255 + da * (255 - sa))"
proof -
  define n where "n = cs * (sa * 255) + cd * (da * (255 - sa))"
  define m where "m = sa * 255 + da * (255 - sa)"
  have nz: "(of_int m :: rat) \<noteq> 0" using assms by (simp add: m_def del: of_int_add of_int_mult)
  have num: "of_int cs * (of_int sa / 255) + of_int cd * (of_int da / 255) * (1 - of_int sa / 255)
      = (of_int n :: rat) / 65025"
    by (simp add: n_def field_simps)
  have den: "of_int sa / 255 + of_int da / 255 * (1 - of_int sa / 255)
      = (of_int m :: rat) / 65025"
    by (simp add: m_def field_simps)
  have "spec_over_colour cs sa cd da = (of_int n / 65025) / (of_int m / 65025)"
    unfolding spec_over_colour_def Let_def num den ..
  also have "\<dots> = of_int n / of_int m" using nz by simp
  finally show ?thesis by (simp only: n_def m_def)
qed

lemma over_colour_error:
  fixes cs cd sa da :: int
  assumes c: "0 \<le> cs" "cs \<le> 255" "0 \<le> cd" "cd \<le> 255"
    and a: "0 < sa" "sa \<le> 255" "0 \<le> da" "da \<le> 255"
  defines "outa255 \<equiv> sa * 255 + da * (255 - sa)"
  defines "coef1 \<equiv> sa * 255 * 255 * 128 div outa255"
  defines "tmp \<equiv> cs * coef1 + cd * (255 * 128 - coef1)"
  defines "r \<equiv> shift_for_div255 (tmp + 128 * 128) div 128"
  shows "0 \<le> r" "r \<le> 255" "\<bar>of_int r - spec_over_colour cs sa cd da\<bar> < 1 / 2 + 1 / 50"
proof -
  have "0 \<le> da * (255 - sa)" using a by simp
  moreover have "0 < sa * 255" using a by simp
  ultimately have O: "0 < outa255" "sa * 255 \<le> outa255"
    unfolding outa255_def by linarith+
  define d where "d = sa * 255 * 255 * 128 mod outa255"
  have d: "0 \<le> d" "d < outa255" using O by (simp_all add: d_def)
  have split: "coef1 * outa255 + d = sa * 255 * 32640"
    by (simp add: coef1_def d_def)
  have c1_lo: "0 \<le> coef1"
    unfolding coef1_def using a O by (intro pos_imp_zdiv_nonneg_iff [THEN iffD2]) simp_all
  have "coef1 * outa255 \<le> sa * 255 * 32640" using split d by linarith
  also have "\<dots> \<le> outa255 * 32640" using O by simp
  finally have "coef1 * outa255 \<le> 32640 * outa255" by (simp add: mult.commute)
  then have c1_hi: "coef1 \<le> 32640" using O by simp
  define coef2 where "coef2 = 255 * 128 - coef1"
  have c2: "0 \<le> coef2" "coef1 + coef2 = 32640" using c1_hi by (simp_all add: coef2_def)
  have t1: "cs * coef1 \<le> 255 * coef1" using c c1_lo by (intro mult_right_mono) simp_all
  have t2: "cd * coef2 \<le> 255 * coef2" using c c2 by (intro mult_right_mono) simp_all
  have t3: "0 \<le> cs * coef1" "0 \<le> cd * coef2" using c c1_lo c2 by simp_all
  have tmp_eq: "tmp = cs * coef1 + cd * coef2" by (simp add: tmp_def coef2_def)
  have tmp: "0 \<le> tmp" "tmp \<le> 8323200" unfolding tmp_eq using t1 t2 t3 c2 by linarith+
  from colour_shift_bounds [OF tmp]
  show r: "0 \<le> r" "r \<le> 255" by (simp_all add: r_def)
  from colour_shift_bounds [OF tmp]
  have rb: "32640 * r - 16384 \<le> tmp" "tmp < 32640 * r + 16640" by (simp_all add: r_def)
  let ?E = "spec_over_colour cs sa cd da"
  have E: "?E = of_int (cs * (sa * 255) + cd * (outa255 - sa * 255)) / of_int outa255"
    using spec_over_colour_eq [of sa da cs cd] O by (simp add: outa255_def)
  have key: "32640 * (cs * (sa * 255) + cd * (outa255 - sa * 255)) = outa255 * tmp + (cs - cd) * d"
  proof -
    have "32640 * (cs * (sa * 255) + cd * (outa255 - sa * 255))
        = cs * (sa * 255 * 32640) + 32640 * cd * outa255 - cd * (sa * 255 * 32640)"
      by (simp add: algebra_simps)
    also have "\<dots> = cs * (coef1 * outa255 + d) + 32640 * cd * outa255 - cd * (coef1 * outa255 + d)"
      by (simp only: split)
    also have "\<dots> = outa255 * tmp + (cs - cd) * d"
      by (simp add: tmp_def algebra_simps)
    finally show ?thesis .
  qed
  have Opos: "(0 :: rat) < of_int outa255" using O by simp
  have "32640 * ?E = of_int (32640 * (cs * (sa * 255) + cd * (outa255 - sa * 255))) / of_int outa255"
    unfolding E by simp
  also have "\<dots> = of_int (outa255 * tmp + (cs - cd) * d) / of_int outa255"
    by (simp only: key)
  also have "\<dots> = of_int tmp + of_int ((cs - cd) * d) / of_int outa255"
    using Opos by (simp add: field_simps)
  finally have E32: "32640 * ?E - of_int tmp = of_int ((cs - cd) * d) / of_int outa255" by simp
  have "\<bar>(cs - cd) * d\<bar> = \<bar>cs - cd\<bar> * d" using d by (simp add: abs_mult)
  also have "\<dots> \<le> 255 * d" using c d by (intro mult_right_mono) simp_all
  also have "\<dots> < 255 * outa255" using d by simp
  finally have "\<bar>(cs - cd) * d\<bar> < 255 * outa255" .
  then have "\<bar>of_int ((cs - cd) * d) :: rat\<bar> < 255 * of_int outa255"
    by (metis of_int_abs of_int_less_iff of_int_mult of_int_numeral)
  then have "\<bar>of_int ((cs - cd) * d) / of_int outa255 :: rat\<bar> < 255"
    using Opos by (simp add: abs_divide divide_less_eq)
  then have e1: "\<bar>32640 * ?E - of_int tmp\<bar> < 255" using E32 by simp
  have e2: "\<bar>(of_int tmp :: rat) - 32640 * of_int r\<bar> \<le> 16640"
  proof -
    have "\<bar>tmp - 32640 * r\<bar> \<le> 16640" using rb by arith
    then have "\<bar>of_int (tmp - 32640 * r) :: rat\<bar> \<le> 16640"
      by (metis of_int_abs of_int_le_iff of_int_numeral)
    then show ?thesis by simp
  qed
  have "\<bar>32640 * ?E - 32640 * of_int r\<bar> < 16895" using e1 e2 by linarith
  then show "\<bar>of_int r - ?E\<bar> < 1 / 2 + 1 / 50" by linarith
qed


lemma composite_px_rgb:
  assumes "alpha src \<noteq> 0"
  shows "red (composite_px dst src) = of_int (shift_for_div255
        (uint (red src) * (uint (alpha src) * 255 * 255 * 128
              div (uint (alpha src) * 255 + uint (alpha dst) * (255 - uint (alpha src))))
         + uint (red dst) * (255 * 128 - uint (alpha src) * 255 * 255 * 128
              div (uint (alpha src) * 255 + uint (alpha dst) * (255 - uint (alpha src))))
         + 128 * 128) div 128)"
    "green (composite_px dst src) = of_int (shift_for_div255
        (uint (green src) * (uint (alpha src) * 255 * 255 * 128
              div (uint (alpha src) * 255 + uint (alpha dst) * (255 - uint (alpha src))))
         + uint (green dst) * (255 * 128 - uint (alpha src) * 255 * 255 * 128
              div (uint (alpha src) * 255 + uint (alpha dst) * (255 - uint (alpha src))))
         + 128 * 128) div 128)"
    "blue (composite_px dst src) = of_int (shift_for_div255
        (uint (blue src) * (uint (alpha src) * 255 * 255 * 128
              div (uint (alpha src) * 255 + uint (alpha dst) * (255 - uint (alpha src))))
         + uint (blue dst) * (255 * 128 - uint (alpha src) * 255 * 255 * 128
              div (uint (alpha src) * 255 + uint (alpha dst) * (255 - uint (alpha src))))
         + 128 * 128) div 128)"
  using assms unfolding composite_px_def Let_def by simp_all

lemma over_colour_word:
  fixes cs cd sa da :: u8
  assumes "sa \<noteq> 0"
  defines "r \<equiv> shift_for_div255
        (uint cs * (uint sa * 255 * 255 * 128 div (uint sa * 255 + uint da * (255 - uint sa)))
         + uint cd * (255 * 128 - uint sa * 255 * 255 * 128
              div (uint sa * 255 + uint da * (255 - uint sa)))
         + 128 * 128) div 128"
  shows "\<bar>of_int (uint (of_int r :: u8)) - spec_over_colour (uint cs) (uint sa) (uint cd) (uint da)\<bar>
      < 1 / 2 + 1 / 50"
proof -
  have "uint sa \<noteq> 0" using assms(1) by (simp add: uint_0_iff)
  then have sa: "0 < uint sa" using uint8_range(1) [of sa] by linarith
  have "0 \<le> r" unfolding r_def by (rule over_colour_error(1)) (simp_all add: sa uint8_range)
  moreover have "r \<le> 255"
    unfolding r_def by (rule over_colour_error(2)) (simp_all add: sa uint8_range)
  ultimately have "uint (of_int r :: u8) = r" by (rule uint_of_sample)
  moreover have "\<bar>of_int r - spec_over_colour (uint cs) (uint sa) (uint cd) (uint da)\<bar>
      < 1 / 2 + 1 / 50"
    unfolding r_def by (rule over_colour_error(3)) (simp_all add: sa uint8_range)
  ultimately show ?thesis by (simp only:)
qed

lemma composite_px_spec_colour:
  assumes "alpha src \<noteq> 0"
  shows "\<bar>of_int (uint (red (composite_px dst src)))
      - spec_over_colour (uint (red src)) (uint (alpha src)) (uint (red dst)) (uint (alpha dst))\<bar>
      < 1 / 2 + 1 / 50"
    "\<bar>of_int (uint (green (composite_px dst src)))
      - spec_over_colour (uint (green src)) (uint (alpha src)) (uint (green dst)) (uint (alpha dst))\<bar>
      < 1 / 2 + 1 / 50"
    "\<bar>of_int (uint (blue (composite_px dst src)))
      - spec_over_colour (uint (blue src)) (uint (alpha src)) (uint (blue dst)) (uint (alpha dst))\<bar>
      < 1 / 2 + 1 / 50"
  unfolding composite_px_rgb [OF assms] by (rule over_colour_word [OF assms])+


section \<open>The pipeline on the example images\<close>

subsection \<open>Values of the per-pixel functions\<close>

lemmas img_eval = mk_img_def pix_def upt_rec

lemma combined_px_0: "combined_px 0 0 0 = 0"
  by (simp add: combined_px_def weighted_sum_def boost_def noise_floor_def fl_eval)

lemma combined_px_255: "combined_px 255 255 255 = 255"
  by (simp add: combined_px_def weighted_sum_def boost_def noise_floor_def fl_eval)

lemma combined_px_coarse_40: "combined_px 0 0 40 = 0"
  by (simp add: combined_px_def weighted_sum_def boost_def noise_floor_def fl_eval)

lemma arr_offset_px_0: "arr_offset_px 0 = 0"
  by (simp add: arr_offset_px_def fl_eval)

lemma arr_offset_px_255: "arr_offset_px 255 = 255"
  by (simp add: arr_offset_px_def fl_eval)

lemma edge_px_255: "edge_px 255 = \<lparr>red = 0, green = 255, blue = 220, alpha = 229\<rparr>"
  by (simp add: edge_px_def HOLO_CYAN_def fl_eval)

lemma offset_px_255: "offset_px 255 = \<lparr>red = 147, green = 51, blue = 234, alpha = 102\<rparr>"
  by (simp add: offset_px_def HOLO_VIOLET_def fl_eval)

lemma faint_px_40: "faint_px 40 = \<lparr>red = 0, green = 10, blue = 8, alpha = 4\<rparr>"
  by (simp add: faint_px_def fl_eval)

lemma glow_px_eval:
  "glow_px \<lparr>red = r, green = g, blue = b, alpha = a\<rparr>
     = \<lparr>red = r, green = g, blue = b, alpha = of_int (uint a div 2)\<rparr>"
  using halve_sample [of "uint a"] uint8_range [of a] by (simp add: glow_px_def as_float_uint)

lemmas px_eval = combined_px_0 combined_px_255 combined_px_coarse_40 arr_offset_px_0
  arr_offset_px_255 edge_px_255 offset_px_255 faint_px_40 glow_px_eval

lemma funpow_3: "(f ^^ 3) x = f (f (f x))"
  by (simp add: numeral_3_eq_3)

lemmas blur_unfold = GaussianBlur2_def box_blur_def gaussian_blur_radius_eq funpow_3
  horizontal_box_blur_eq

lemmas layer_eval = out_img_def edge_mask_def offset_mask_def faint_mask_def zeros_def
  assign_masked_def combined_edges_def arr_offset_def as_float_def

subsection \<open>Two black pixels beside two white pixels\<close>

lemma convert_L_black_white: "convert_L black_white = gray_bw"
  by (simp add: convert_L_def black_white_def opaque_def rgb2l_def rgb_of_def l24_def)

lemma filters_black_white:
  "edges_fine gray_bw = gray_bw" "FIND_EDGES gray_bw = gray_bw"
  "edges_coarse gray_bw = gray_bw" "CONTOUR gray_bw = gray_bw"
  by (simp_all add: edges_fine_def FIND_EDGES_def edges_coarse_def CONTOUR_def filter_kernel_def)

lemma combined_edges_black_white: "combined_edges gray_bw = gray_bw"
  by (simp add: combined_edges_def Let_def filters_black_white px_eval img_eval)

lemma arr_offset_black_white: "arr_offset gray_bw = gray_bw"
  by (simp add: arr_offset_def Let_def filters_black_white px_eval img_eval)

lemma masks_black_white:
  "edge_mask_of gray_bw = \<lparr>width = 2, height = 2, rows = [[False, True], [False, True]]\<rparr>"
  "offset_mask_of gray_bw = \<lparr>width = 2, height = 2, rows = [[False, False], [False, False]]\<rparr>"
  "faint_mask_of gray_bw = \<lparr>width = 2, height = 2, rows = [[False, False], [False, False]]\<rparr>"
  by (simp_all add: edge_mask_of_def offset_mask_of_def faint_mask_of_def edge_mask_def
      offset_mask_def faint_mask_def combined_edges_black_white arr_offset_black_white
      as_float_def img_eval)

lemma size_black_white: "width black_white = 2" "height black_white = 2"
  by (simp_all add: black_white_def)

lemma out_img_black_white: "out_img black_white = out_bw"
  by (simp add: out_img_layers Let_def convert_L_black_white masks_black_white
      combined_edges_black_white arr_offset_black_white size_black_white
      assign_masked_def zeros_def px_eval img_eval)

lemma blur_black_white:
  "GaussianBlur2 out_bw = \<lparr>width = 2, height = 2,
      rows = [[\<lparr>red = 0, green = 125, blue = 108, alpha = 112\<rparr>,
               \<lparr>red = 0, green = 130, blue = 112, alpha = 117\<rparr>],
              [\<lparr>red = 0, green = 125, blue = 108, alpha = 112\<rparr>,
               \<lparr>red = 0, green = 130, blue = 112, alpha = 117\<rparr>]]\<rparr>"
  unfolding blur_unfold by code_simp

lemma glow_black_white:
  "glow_img out_bw = \<lparr>width = 2, height = 2,
      rows = [[\<lparr>red = 0, green = 125, blue = 108, alpha = 56\<rparr>,
               \<lparr>red = 0, green = 130, blue = 112, alpha = 58\<rparr>],
              [\<lparr>red = 0, green = 125, blue = 108, alpha = 56\<rparr>,
               \<lparr>red = 0, green = 130, blue = 112, alpha = 58\<rparr>]]\<rparr>"
  by (simp add: glow_img_def Let_def blur_black_white px_eval img_eval)

lemma composite_px_58_229:
  "composite_px \<lparr>red = 0, green = 130, blue = 112, alpha = 58\<rparr> cyan_229
     = \<lparr>red = 0, green = 252, blue = 217, alpha = 235\<rparr>"
  by (simp add: composite_px_def shift_for_div255_def Let_def)

lemma final_img_black_white:
  "final_img black_white = Inr \<lparr>width = 2, height = 2,
      rows = [[\<lparr>red = 0, green = 125, blue = 108, alpha = 56\<rparr>,
               \<lparr>red = 0, green = 252, blue = 217, alpha = 235\<rparr>],
              [\<lparr>red = 0, green = 125, blue = 108, alpha = 56\<rparr>,
               \<lparr>red = 0, green = 252, blue = 217, alpha = 235\<rparr>]]\<rparr>"
  by (simp add: final_img_def Let_def out_img_black_white glow_black_white alpha_composite_def
      composite_px_clear composite_px_58_229 img_eval)

subsection \<open>The all-black 3x3 image\<close>

lemmas filter_eval = edges_fine_def FIND_EDGES_def edges_coarse_def CONTOUR_def
  filter_kernel_def kernel3_def kernel5_def kernel_sum_def clip8_def

lemma convert_L_black3: "convert_L black3 = gray_black3"
  by (simp add: convert_L_def black3_def opaque_def rgb2l_def rgb_of_def l24_def)

lemma size_black3: "width black3 = 3" "height black3 = 3"
  by (simp_all add: black3_def)

lemma filters_black3:
  "edges_fine gray_black3 = gray_black3" "FIND_EDGES gray_black3 = gray_black3"
  "edges_coarse gray_black3 = gray_black3" "CONTOUR gray_black3 = centre_255"
  by (simp_all add: filter_eval img_eval)

lemma combined_edges_black3: "combined_edges gray_black3 = gray_black3"
  by (simp add: combined_edges_def Let_def filters_black3 px_eval img_eval)

lemma arr_offset_black3: "arr_offset gray_black3 = centre_255"
  by (simp add: arr_offset_def Let_def filters_black3 px_eval img_eval)

lemma masks_black3:
  "edge_mask_of gray_black3 = \<lparr>width = 3, height = 3,
     rows = [[False, False, False], [False, False, False], [False, False, False]]\<rparr>"
  "offset_mask_of gray_black3 = \<lparr>width = 3, height = 3,
     rows = [[False, False, False], [False, True, False], [False, False, False]]\<rparr>"
  "faint_mask_of gray_black3 = \<lparr>width = 3, height = 3,
     rows = [[False, False, False], [False, False, False], [False, False, False]]\<rparr>"
  by (simp_all add: edge_mask_of_def offset_mask_of_def faint_mask_of_def edge_mask_def
      offset_mask_def faint_mask_def combined_edges_black3 arr_offset_black3
      as_float_def img_eval)

lemma out_img_black3: "out_img black3 = out_black3"
  by (simp add: out_img_layers Let_def convert_L_black3 masks_black3
      combined_edges_black3 arr_offset_black3 size_black3
      assign_masked_def zeros_def px_eval img_eval)

lemma blur_black3:
  "GaussianBlur2 out_black3 = \<lparr>width = 3, height = 3,
      rows = [[haze 7, haze 7, haze 7], [haze 7, haze 7, haze 7], [haze 7, haze 7, haze 7]]\<rparr>"
  unfolding blur_unfold by code_simp

lemma glow_black3:
  "glow_img out_black3 = \<lparr>width = 3, height = 3,
      rows = [[haze 3, haze 3, haze 3], [haze 3, haze 3, haze 3], [haze 3, haze 3, haze 3]]\<rparr>"
  by (simp add: glow_img_def Let_def blur_black3 px_eval img_eval)

lemma composite_px_3_102:
  "composite_px (haze 3) violet_102 = \<lparr>red = 145, green = 50, blue = 230, alpha = 104\<rparr>"
  by (simp add: composite_px_def shift_for_div255_def Let_def)

lemma final_img_black3:
  "final_img black3 = Inr \<lparr>width = 3, height = 3,
      rows = [[haze 3, haze 3, haze 3],
              [haze 3, \<lparr>red = 145, green = 50, blue = 230, alpha = 104\<rparr>, haze 3],
              [haze 3, haze 3, haze 3]]\<rparr>"
  by (simp add: final_img_def Let_def out_img_black3 glow_black3 alpha_composite_def
      composite_px_clear composite_px_3_102 img_eval)

subsection \<open>The gray pixel in a white border\<close>

lemma convert_L_ring3: "convert_L ring3 = gray_ring3"
  by (simp add: convert_L_def ring3_def opaque_def rgb2l_def rgb_of_def l24_def)

lemma size_ring3: "width ring3 = 3" "height ring3 = 3"
  by (simp_all add: ring3_def)

lemma filters_ring3:
  "edges_fine gray_ring3 = centre_0" "FIND_EDGES gray_ring3 = centre_0"
  "edges_coarse gray_ring3 = gray_ring3" "CONTOUR gray_ring3 = centre_0"
  by (simp_all add: filter_eval img_eval)

lemma combined_edges_ring3: "combined_edges gray_ring3 = centre_0"
  by (simp add: combined_edges_def Let_def filters_ring3 px_eval img_eval)

lemma arr_offset_ring3: "arr_offset gray_ring3 = centre_0"
  by (simp add: arr_offset_def Let_def filters_ring3 px_eval img_eval)

lemma masks_ring3:
  "edge_mask_of gray_ring3 = \<lparr>width = 3, height = 3,
     rows = [[True, True, True], [True, False, True], [True, True, True]]\<rparr>"
  "offset_mask_of gray_ring3 = \<lparr>width = 3, height = 3,
     rows = [[False, False, False], [False, False, False], [False, False, False]]\<rparr>"
  "faint_mask_of gray_ring3 = \<lparr>width = 3, height = 3,
     rows = [[False, False, False], [False, True, False], [False, False, False]]\<rparr>"
  by (simp_all add: edge_mask_of_def offset_mask_of_def faint_mask_of_def edge_mask_def
      offset_mask_def faint_mask_def combined_edges_ring3 arr_offset_ring3
      as_float_def img_eval)

lemma out_img_ring3: "out_img ring3 = out_ring3"
  by (simp add: out_img_layers Let_def convert_L_ring3 masks_ring3
      combined_edges_ring3 arr_offset_ring3 size_ring3
      assign_masked_def zeros_def px_eval img_eval)

lemma blur_ring3:
  "GaussianBlur2 out_ring3 = \<lparr>width = 3, height = 3,
      rows = [[shine 213, shine 213, shine 213],
              [shine 213, shine 213, shine 213],
              [shine 213, shine 213, shine 213]]\<rparr>"
  unfolding blur_unfold by code_simp

lemma glow_ring3:
  "glow_img out_ring3 = \<lparr>width = 3, height = 3,
      rows = [[shine 106, shine 106, shine 106],
              [shine 106, shine 106, shine 106],
              [shine 106, shine 106, shine 106]]\<rparr>"
  by (simp add: glow_img_def Let_def blur_ring3 px_eval img_eval)

lemma composite_px_106_229: "composite_px (shine 106) cyan_229 = lit_240"
  by (simp add: composite_px_def shift_for_div255_def Let_def)

lemma composite_px_106_4:
  "composite_px (shine 106) faint_4 = \<lparr>red = 0, green = 230, blue = 198, alpha = 108\<rparr>"
  by (simp add: composite_px_def shift_for_div255_def Let_def)

lemma final_img_ring3:
  "final_img ring3 = Inr \<lparr>width = 3, height = 3,
      rows = [[lit_240, lit_240, lit_240],
              [lit_240, \<lparr>red = 0, green = 230, blue = 198, alpha = 108\<rparr>, lit_240],
              [lit_240, lit_240, lit_240]]\<rparr>"
  by (simp add: final_img_def Let_def out_img_ring3 glow_ring3 alpha_composite_def
      composite_px_106_229 composite_px_106_4 img_eval)

section \<open>The claims\<close>

text \<open>
  C3. For every input image and every pixel position, at most one of the three masks
  \<open>edge_mask\<close>, \<open>offset_mask\<close>, \<open>faint_mask\<close> is true there: the masks are pairwise
  disjoint.
\<close>

theorem masks_pairwise_disjoint:
  assumes "x < width im" "y < height im"
  shows "let g = convert_L im;
             in_edge = pix (edge_mask_of g) x y;
             in_offset = pix (offset_mask_of g) x y;
             in_faint = pix (faint_mask_of g) x y
         in \<not> (in_edge \<and> in_offset) \<and> \<not> (in_edge \<and> in_faint)
            \<and> \<not> (in_offset \<and> in_faint)"
  using assms pix_masks [of x "convert_L im" y] by (auto simp: Let_def)

theorem masks_pairwise_disjoint_witness:
  "(0::nat) < width one_white \<and> (0::nat) < height one_white \<and>
   (let g = convert_L one_white;
        in_edge = pix (edge_mask_of g) 0 0;
        in_offset = pix (offset_mask_of g) 0 0;
        in_faint = pix (faint_mask_of g) 0 0
    in \<not> (in_edge \<and> in_offset) \<and> \<not> (in_edge \<and> in_faint)
       \<and> \<not> (in_offset \<and> in_faint))"
proof -
  have h: "(0::nat) < width one_white" "(0::nat) < height one_white"
    by (simp_all add: one_white_def)
  from masks_pairwise_disjoint [OF h] h show ?thesis by blast
qed



text \<open>
  C7. For every valid input image, the output image written by \<open>create_wireframe\<close> has
  the width and the height of the input image, and its pixels are RGBA pixels (four
  channels; the type \<open>rgba img\<close> of the output); the run does not fail.
\<close>

theorem output_dimensions:
  assumes "fs src_path = Some im"
  shows "\<exists>final. create_wireframe src_path dst_path fs = Inr (fs(dst_path \<mapsto> final))
           \<and> width final = width im \<and> height final = height im
           \<and> (wf_img im \<longrightarrow> wf_img final)"
proof -
  let ?final = "mk_img (width im) (height im)
     (\<lambda>x y. composite_px (pix (glow_img (out_img im)) x y) (pix (out_img im) x y))"
  have "create_wireframe src_path dst_path fs = Inr (fs(dst_path \<mapsto> ?final))"
    using assms by (simp add: create_wireframe_def final_img_eq)
  moreover have "wf_img im \<longrightarrow> wf_img ?final"
  proof
    assume "wf_img im"
    then have "0 < width im" "0 < height im" by (simp_all add: wf_img_def)
    then show "wf_img ?final" by (rule wf_mk_img)
  qed
  ultimately show ?thesis by (intro exI [of _ ?final]) simp
qed

theorem output_dimensions_witness:
  "example_store ''idle.png'' = Some one_white \<and> wf_img one_white \<and>
   (\<exists>final. create_wireframe ''idle.png'' ''holo_portrait.png'' example_store
               = Inr (example_store(''holo_portrait.png'' \<mapsto> final))
      \<and> width final = 1 \<and> height final = 1 \<and> wf_img final)"
proof -
  have h: "example_store ''idle.png'' = Some one_white"
    by (simp add: example_store_def)
  have w: "wf_img one_white" "width one_white = 1" "height one_white = 1"
    by (simp_all add: wf_img_def one_white_def)
  from output_dimensions [of example_store "''idle.png''" one_white "''holo_portrait.png''"] h w
  show ?thesis by auto
qed

text \<open>
  C9. The output of \<open>create_wireframe\<close> does not depend on the input image's alpha
  channel: for two source images that agree on the R, G and B samples of every pixel,
  the runs write identical output images.
\<close>

theorem alpha_channel_ignored:
  assumes "same_rgb a b" "fsa src_path = Some a" "fsb src_path = Some b"
  shows "final_img a = final_img b
     \<and> output_file dst_path (create_wireframe src_path dst_path fsa)
       = output_file dst_path (create_wireframe src_path dst_path fsb)"
  using assms same_rgb_final_img [OF assms(1)]
  by (simp add: create_wireframe_def output_file_def final_img_eq)

theorem alpha_channel_ignored_witness:
  "same_rgb one_white one_white_clear
   \<and> example_store ''idle.png'' = Some one_white
   \<and> [''idle.png'' \<mapsto> one_white_clear] ''idle.png'' = Some one_white_clear
   \<and> one_white \<noteq> one_white_clear
   \<and> final_img one_white = final_img one_white_clear
   \<and> output_file ''holo_portrait.png''
        (create_wireframe ''idle.png'' ''holo_portrait.png'' example_store)
      = output_file ''holo_portrait.png''
        (create_wireframe ''idle.png'' ''holo_portrait.png'' [''idle.png'' \<mapsto> one_white_clear])"
proof -
  have h1: "same_rgb one_white one_white_clear"
    by (simp add: same_rgb_def one_white_def one_white_clear_def rgb_of_def opaque_def)
  have h2: "example_store ''idle.png'' = Some one_white"
    by (simp add: example_store_def)
  have h3: "[''idle.png'' \<mapsto> one_white_clear] ''idle.png'' = Some one_white_clear"
    by simp
  have h4: "one_white \<noteq> one_white_clear"
    by (simp add: one_white_def one_white_clear_def opaque_def)
  from alpha_channel_ignored
    [of one_white one_white_clear example_store "''idle.png''"
        "[''idle.png'' \<mapsto> one_white_clear]" "''holo_portrait.png''"]
    h1 h2 h3 h4
  show ?thesis by blast
qed

text \<open>
  C10. The glow composite never decreases opacity: for every input image and every
  pixel, the alpha of the final composited output is at least the alpha of the sharp
  pre-glow image at that pixel.
\<close>

theorem glow_composite_alpha_monotone:
  assumes "x < width im" "y < height im"
  shows "\<exists>final. final_img im = Inr final
           \<and> alpha (pix (out_img im) x y) \<le> alpha (pix final x y)"
  using assms by (simp add: final_img_eq composite_px_alpha_ge)

theorem glow_composite_alpha_monotone_witness:
  "(0::nat) < width one_white \<and> (0::nat) < height one_white \<and>
   (\<exists>final. final_img one_white = Inr final
      \<and> alpha (pix (out_img one_white) 0 0) \<le> alpha (pix final 0 0))"
proof -
  have h: "(0::nat) < width one_white" "(0::nat) < height one_white"
    by (simp_all add: one_white_def)
  from glow_composite_alpha_monotone [OF h] h show ?thesis by blast
qed


text \<open>
  C1. Claimed: for every all-black, fully opaque input image, \<open>create_wireframe\<close> produces
  an output in which every pixel has alpha 0. On the all-black 3x3 image the code does
  otherwise: every luminance is 0, the contour filter yields 255 at the inner pixel, the
  secondary layer paints it violet with alpha 102, and the written image has alpha 104
  at the inner pixel and alpha 3 at the eight border pixels.
\<close>

theorem blank_image_not_transparent:
  "convert_L black3 = gray_black3
   \<and> pix (offset_mask_of (convert_L black3)) 1 1
   \<and> out_img black3 = out_black3
   \<and> create_wireframe ''idle.png'' ''holo_portrait.png'' [''idle.png'' \<mapsto> black3]
     = Inr [''idle.png'' \<mapsto> black3,
            ''holo_portrait.png'' \<mapsto> \<lparr>width = 3, height = 3,
               rows = [[haze 3, haze 3, haze 3],
                       [haze 3, \<lparr>red = 145, green = 50, blue = 230, alpha = 104\<rparr>, haze 3],
                       [haze 3, haze 3, haze 3]]\<rparr>]"
  by (simp add: convert_L_black3 masks_black3 out_img_black3 create_wireframe_def
      final_img_black3 pix_def)

text \<open>
  C2, as amended. For every input image and every pixel position outside all three
  layer masks, the pixel is \<open>(0, 0, 0, 0)\<close> in the sharp image before the glow composite;
  in the final output the pixel is the glow buffer's pixel at that position, whose alpha
  is at most 128 (and need not be 0).
\<close>

theorem unmasked_pixel_clear_before_glow:
  assumes "x < width im" "y < height im"
    and "\<not> pix (edge_mask_of (convert_L im)) x y"
    and "\<not> pix (offset_mask_of (convert_L im)) x y"
    and "\<not> pix (faint_mask_of (convert_L im)) x y"
  shows "pix (out_img im) x y = \<lparr>red = 0, green = 0, blue = 0, alpha = 0\<rparr>
     \<and> (\<exists>final. final_img im = Inr final
           \<and> pix final x y = pix (glow_img (out_img im)) x y
           \<and> alpha (pix final x y) \<le> 128)"
proof -
  have sharp: "pix (out_img im) x y = \<lparr>red = 0, green = 0, blue = 0, alpha = 0\<rparr>"
    using assms by (simp add: pix_out_img Let_def)
  let ?final = "mk_img (width im) (height im)
     (\<lambda>x y. composite_px (pix (glow_img (out_img im)) x y) (pix (out_img im) x y))"
  have "pix ?final x y = pix (glow_img (out_img im)) x y"
    using assms(1,2) by (simp add: sharp composite_px_clear)
  moreover have "alpha (pix (glow_img (out_img im)) x y) \<le> 128"
    using assms(1,2) by (simp add: pix_glow_img glow_px_alpha_le)
  ultimately show ?thesis
    using sharp final_img_eq [of im] by simp
qed

theorem unmasked_pixel_clear_before_glow_witness:
  "(0::nat) < width black_white \<and> (0::nat) < height black_white
   \<and> \<not> pix (edge_mask_of (convert_L black_white)) 0 0
   \<and> \<not> pix (offset_mask_of (convert_L black_white)) 0 0
   \<and> \<not> pix (faint_mask_of (convert_L black_white)) 0 0
   \<and> pix (out_img black_white) 0 0 = \<lparr>red = 0, green = 0, blue = 0, alpha = 0\<rparr>
   \<and> (\<exists>final. final_img black_white = Inr final
         \<and> pix final 0 0 = pix (glow_img (out_img black_white)) 0 0
         \<and> alpha (pix final 0 0) \<le> 128)"
proof -
  have h: "(0::nat) < width black_white" "(0::nat) < height black_white"
    by (simp_all add: size_black_white)
  have m: "\<not> pix (edge_mask_of (convert_L black_white)) 0 0"
    "\<not> pix (offset_mask_of (convert_L black_white)) 0 0"
    "\<not> pix (faint_mask_of (convert_L black_white)) 0 0"
    by (simp_all add: convert_L_black_white masks_black_white pix_def)
  from unmasked_pixel_clear_before_glow [OF h m] h m show ?thesis by blast
qed

text \<open>
  C2, as stated, fails. In the image of two black pixels beside two white pixels, the
  pixel at \<open>(0, 0)\<close> is outside all three masks, and the final output has alpha 56 there:
  the glow of the neighbouring cyan edge.
\<close>

theorem unmasked_pixel_glow_counterexample:
  "(0::nat) < width black_white \<and> (0::nat) < height black_white
   \<and> \<not> pix (edge_mask_of (convert_L black_white)) 0 0
   \<and> \<not> pix (offset_mask_of (convert_L black_white)) 0 0
   \<and> \<not> pix (faint_mask_of (convert_L black_white)) 0 0
   \<and> final_img black_white = Inr \<lparr>width = 2, height = 2,
        rows = [[\<lparr>red = 0, green = 125, blue = 108, alpha = 56\<rparr>,
                 \<lparr>red = 0, green = 252, blue = 217, alpha = 235\<rparr>],
                [\<lparr>red = 0, green = 125, blue = 108, alpha = 56\<rparr>,
                 \<lparr>red = 0, green = 252, blue = 217, alpha = 235\<rparr>]]\<rparr>"
  by (simp add: size_black_white convert_L_black_white masks_black_white pix_def
      final_img_black_white)

text \<open>
  C5, as amended. For every input image: a pixel painted by the secondary (violet) layer
  has alpha at most 180 in the persisted output, and the glow buffer's alpha is at most
  128 at every pixel; a pixel painted by the faint layer has alpha at most 40, G at most
  80 and B at most 70 in the sharp image before the glow composite.
\<close>

theorem layer_bands:
  assumes "x < width im" "y < height im"
  shows "\<exists>final. final_img im = Inr final \<and>
     (let g = convert_L im; sharp = pix (out_img im) x y in
        (pix (faint_mask_of g) x y \<longrightarrow> alpha sharp \<le> 40 \<and> green sharp \<le> 80 \<and> blue sharp \<le> 70)
        \<and> (pix (offset_mask_of g) x y \<longrightarrow> alpha (pix final x y) \<le> 180)
        \<and> alpha (pix (glow_img (out_img im)) x y) \<le> 128)"
proof -
  let ?g = "convert_L im"
  let ?final = "mk_img (width im) (height im)
     (\<lambda>x y. composite_px (pix (glow_img (out_img im)) x y) (pix (out_img im) x y))"
  have s: "x < width ?g" "y < height ?g" using assms by simp_all
  have faint: "pix (faint_mask_of ?g) x y \<Longrightarrow> pix (out_img im) x y = faint_px (pix ?g x y)"
    using assms by (simp add: pix_out_img Let_def)
  have "pix (offset_mask_of ?g) x y \<Longrightarrow> \<not> pix (faint_mask_of ?g) x y"
    using pix_masks(3) [OF s] by simp
  then have violet: "pix (offset_mask_of ?g) x y \<Longrightarrow>
      pix (out_img im) x y = offset_px (pix (arr_offset ?g) x y)"
    using assms by (simp add: pix_out_img Let_def)
  have glow: "alpha (pix (glow_img (out_img im)) x y) \<le> 128"
    using assms by (simp add: pix_glow_img glow_px_alpha_le)
  then have "uint (alpha (pix (glow_img (out_img im)) x y)) \<le> 128"
    by (simp add: word_le_def)
  then have "pix (offset_mask_of ?g) x y \<Longrightarrow>
      alpha (composite_px (pix (glow_img (out_img im)) x y) (pix (out_img im) x y)) \<le> 180"
    using violet offset_px_alpha_102 by (intro composite_px_alpha_violet) simp_all
  moreover have "pix ?final x y
      = composite_px (pix (glow_img (out_img im)) x y) (pix (out_img im) x y)"
    using assms by simp
  ultimately show ?thesis
    using faint glow
    by (intro exI [of _ ?final]) (auto simp: final_img_eq Let_def faint_px_bands)
qed

theorem layer_bands_witness:
  "(1::nat) < width ring3 \<and> (1::nat) < height ring3
   \<and> pix (faint_mask_of (convert_L ring3)) 1 1
   \<and> alpha (pix (out_img ring3) 1 1) \<le> 40 \<and> green (pix (out_img ring3) 1 1) \<le> 80
   \<and> blue (pix (out_img ring3) 1 1) \<le> 70
   \<and> alpha (pix (glow_img (out_img ring3)) 1 1) \<le> 128
   \<and> (1::nat) < width black3 \<and> (1::nat) < height black3
   \<and> pix (offset_mask_of (convert_L black3)) 1 1
   \<and> (\<exists>final. final_img black3 = Inr final \<and> alpha (pix final 1 1) \<le> 180)"
proof -
  have r: "(1::nat) < width ring3" "(1::nat) < height ring3"
    by (simp_all add: size_ring3)
  have rf: "pix (faint_mask_of (convert_L ring3)) 1 1"
    by (simp add: convert_L_ring3 masks_ring3 pix_def)
  have b: "(1::nat) < width black3" "(1::nat) < height black3"
    by (simp_all add: size_black3)
  have bo: "pix (offset_mask_of (convert_L black3)) 1 1"
    by (simp add: convert_L_black3 masks_black3 pix_def)
  from layer_bands [OF r] layer_bands [OF b] r rf b bo
  show ?thesis by (auto simp: Let_def)
qed

text \<open>
  C5, as stated, fails for the persisted output. In the image of a gray pixel (luminance
  40) inside a white border, the inner pixel is painted by the faint layer, and after the
  glow composite the written image has alpha 108, G 230 and B 198 there.
\<close>

theorem faint_band_counterexample:
  "(1::nat) < width ring3 \<and> (1::nat) < height ring3
   \<and> pix (faint_mask_of (convert_L ring3)) 1 1
   \<and> pix (out_img ring3) 1 1 = faint_4
   \<and> final_img ring3 = Inr \<lparr>width = 3, height = 3,
        rows = [[lit_240, lit_240, lit_240],
                [lit_240, \<lparr>red = 0, green = 230, blue = 198, alpha = 108\<rparr>, lit_240],
                [lit_240, lit_240, lit_240]]\<rparr>"
  by (simp add: size_ring3 convert_L_ring3 masks_ring3 out_img_ring3 pix_def final_img_ring3)

text \<open>
  C6. The glow compositor blurs the full pre-glow RGBA image with the Gaussian blur of
  radius 2: every channel of the blurred image is, within 3 units of the 8-bit scale (the
  rounding of the six passes), what three passes along the rows and three along the columns
  of the extended box filter give in exact arithmetic, a weighted mean of variance
  \<open>2\<^sup>2 / 3\<close> per pass, hence a blur of standard deviation 2. The glow keeps the blurred
  colours and has the blurred alpha scaled by 0.5 with a maximum of 128. The final pixel is
  the sharp pre-glow pixel as the foreground over the glow pixel as the background in
  "over" compositing: its alpha is \<open>s + d (1 - s)\<close> for the opacities \<open>s\<close> of the sharp
  pixel and \<open>d\<close> of the glow pixel, rounded to the nearest 8-bit sample; each of its
  colours is, within 0.52 of the 8-bit scale, the sharp and the glow colour weighted by
  \<open>s\<close> and \<open>d (1 - s)\<close>; where the sharp pixel is fully transparent it is the glow
  pixel.
\<close>

theorem glow_compositor_over:
  assumes "x < width im" "y < height im"
  shows "spec_box_total spec_box_radius = 1 \<and> 3 * spec_box_variance spec_box_radius = 2 ^ 2
     \<and> (\<exists>final. final_img im = Inr final \<and>
     (let out = out_img im; sharp = pix out x y;
          blurred = GaussianBlur2 out;
          glow = pix (glow_img out) x y;
          result = pix final x y;
          gauss = (\<lambda>ch. spec_gaussian_blur2 (width im) (height im) (plane_of ch out) x y);
          over = (\<lambda>ch. spec_over_colour (uint (ch sharp)) (uint (alpha sharp))
                          (uint (ch glow)) (uint (alpha glow)))
      in \<bar>plane_of red blurred x y - gauss red\<bar> \<le> 3 + 1 / 1000
         \<and> \<bar>plane_of green blurred x y - gauss green\<bar> \<le> 3 + 1 / 1000
         \<and> \<bar>plane_of blue blurred x y - gauss blue\<bar> \<le> 3 + 1 / 1000
         \<and> \<bar>plane_of alpha blurred x y - gauss alpha\<bar> \<le> 3 + 1 / 1000
         \<and> red glow = red (pix blurred x y) \<and> green glow = green (pix blurred x y)
         \<and> blue glow = blue (pix blurred x y)
         \<and> uint (alpha glow) = spec_glow_alpha (uint (alpha (pix blurred x y)))
         \<and> uint (alpha result) = spec_over_alpha (uint (alpha sharp)) (uint (alpha glow))
         \<and> (alpha sharp \<noteq> 0 \<longrightarrow>
               \<bar>of_int (uint (red result)) - over red\<bar> < 1 / 2 + 1 / 50
             \<and> \<bar>of_int (uint (green result)) - over green\<bar> < 1 / 2 + 1 / 50
             \<and> \<bar>of_int (uint (blue result)) - over blue\<bar> < 1 / 2 + 1 / 50)
         \<and> (alpha sharp = 0 \<longrightarrow> result = glow)))"
proof -
  let ?out = "out_img im"
  let ?final = "mk_img (width im) (height im)
     (\<lambda>x y. composite_px (pix (glow_img ?out) x y) (pix ?out x y))"
  have wf: "wf_img ?out" using assms by (intro wf_out_img) simp_all
  have xy: "x < width ?out" "y < height ?out" using assms by simp_all
  have blur: "\<bar>plane_of ch (GaussianBlur2 ?out) x y
      - spec_gaussian_blur2 (width im) (height im) (plane_of ch ?out) x y\<bar> \<le> 3 + 1 / 1000"
    if "channel ch" for ch
    using GaussianBlur2_spec [OF wf that xy] by simp
  have g: "pix (glow_img ?out) x y = glow_px (pix (GaussianBlur2 ?out) x y)"
    using assms by (simp add: pix_glow_img)
  have f: "pix ?final x y = composite_px (pix (glow_img ?out) x y) (pix ?out x y)"
    using assms by simp
  have fin: "final_img im = Inr ?final" by (simp add: final_img_eq)
  have colour: "alpha (pix ?out x y) \<noteq> 0 \<Longrightarrow>
      \<bar>of_int (uint (ch (pix ?final x y)))
        - spec_over_colour (uint (ch (pix ?out x y))) (uint (alpha (pix ?out x y)))
            (uint (ch (pix (glow_img ?out) x y))) (uint (alpha (pix (glow_img ?out) x y)))\<bar>
        < 1 / 2 + 1 / 50"
    if "ch = red \<or> ch = green \<or> ch = blue" for ch
    unfolding f using that composite_px_spec_colour by blast
  show ?thesis
    unfolding Let_def
    apply (intro conjI exI [of _ ?final] impI)
    apply (rule spec_box_moments)
    apply (rule spec_box_moments)
    apply (rule fin)
    apply (rule blur, simp add: channel_def)
    apply (rule blur, simp add: channel_def)
    apply (rule blur, simp add: channel_def)
    apply (rule blur, simp add: channel_def)
    apply (simp add: g)
    apply (simp add: g)
    apply (simp add: g)
    apply (simp add: g glow_px_alpha_exact)
    apply (simp only: f composite_px_spec_alpha)
    apply (rule colour, simp, assumption)
    apply (rule colour, simp, assumption)
    apply (rule colour, simp, assumption)
    apply (simp add: f composite_px_clear)
    done
qed

theorem glow_compositor_over_witness:
  "(1::nat) < width black_white \<and> (0::nat) < height black_white
   \<and> alpha (pix (out_img black_white) 1 0) \<noteq> 0 \<and> alpha (pix (out_img black_white) 0 0) = 0
   \<and> (\<exists>final. final_img black_white = Inr final
      \<and> \<bar>of_int (uint (green (pix final 1 0)))
           - spec_over_colour (uint (green (pix (out_img black_white) 1 0)))
               (uint (alpha (pix (out_img black_white) 1 0)))
               (uint (green (pix (glow_img (out_img black_white)) 1 0)))
               (uint (alpha (pix (glow_img (out_img black_white)) 1 0)))\<bar> < 1 / 2 + 1 / 50
      \<and> uint (alpha (pix final 1 0))
           = spec_over_alpha (uint (alpha (pix (out_img black_white) 1 0)))
               (uint (alpha (pix (glow_img (out_img black_white)) 1 0)))
      \<and> pix final 0 0 = pix (glow_img (out_img black_white)) 0 0)"
proof -
  have h1: "(1::nat) < width black_white" "(0::nat) < height black_white"
    by (simp_all add: size_black_white)
  have h0: "(0::nat) < width black_white" "(0::nat) < height black_white"
    by (simp_all add: size_black_white)
  have a1: "alpha (pix (out_img black_white) 1 0) \<noteq> 0"
    by (simp add: out_img_black_white pix_def)
  have a0: "alpha (pix (out_img black_white) 0 0) = 0"
    by (simp add: out_img_black_white pix_def)
  from glow_compositor_over [OF h1] glow_compositor_over [OF h0] a1 a0 h1
  show ?thesis by (auto simp: Let_def)
qed
end
